theory Spec2Isabelle
  imports Complex_Main
begin

section \<open>Numbers\<close>

text \<open>
  A TypeScript \<open>number\<close> is modelled with exact real arithmetic on its finite values
  and with the three special values that the source can produce by dividing by zero:
  \<open>Infinity\<close>, \<open>-Infinity\<close> and \<open>NaN\<close>. Rounding and overflow of the 64-bit
  format are not modelled, and \<open>-0\<close> is identified with \<open>0\<close>. The special values
  follow the rules of the arithmetic of the source language: \<open>0 / 0\<close>,
  \<open>Infinity - Infinity\<close> and \<open>0 * Infinity\<close> are \<open>NaN\<close>, every operation on
  \<open>NaN\<close> is \<open>NaN\<close>, and every comparison with \<open>NaN\<close> is false.
\<close>

datatype number = Num real | PInf | NInf | NaN

fun neg :: "number \<Rightarrow> number" where
  "neg (Num a) = Num (- a)"
| "neg PInf = NInf"
| "neg NInf = PInf"
| "neg NaN = NaN"

fun add :: "number \<Rightarrow> number \<Rightarrow> number" where
  "add (Num a) (Num b) = Num (a + b)"
| "add NaN y = NaN"
| "add x NaN = NaN"
| "add PInf NInf = NaN"
| "add NInf PInf = NaN"
| "add PInf y = PInf"
| "add x PInf = PInf"
| "add NInf y = NInf"
| "add x NInf = NInf"

definition sub :: "number \<Rightarrow> number \<Rightarrow> number" where
  "sub x y = add x (neg y)"

text \<open>The sign of a number that is not \<open>NaN\<close>: \<open>1\<close>, \<open>0\<close> or \<open>-1\<close>.\<close>

fun sign :: "number \<Rightarrow> int" where
  "sign (Num a) = (if a > 0 then 1 else if a < 0 then -1 else 0)"
| "sign PInf = 1"
| "sign NInf = -1"
| "sign NaN = 0"

definition inf_of_sign :: "int \<Rightarrow> number" where
  "inf_of_sign s = (if s > 0 then PInf else if s < 0 then NInf else NaN)"

fun mul :: "number \<Rightarrow> number \<Rightarrow> number" where
  "mul (Num a) (Num b) = Num (a * b)"
| "mul NaN y = NaN"
| "mul x NaN = NaN"
| "mul x y = inf_of_sign (sign x * sign y)"

fun divide_num :: "number \<Rightarrow> number \<Rightarrow> number" where
  "divide_num (Num a) (Num b) = (if b = 0 then inf_of_sign (sign (Num a)) else Num (a / b))"
| "divide_num NaN y = NaN"
| "divide_num x NaN = NaN"
| "divide_num (Num a) y = Num 0"
| "divide_num x (Num b) = inf_of_sign (sign x * (if b < 0 then -1 else 1))"
| "divide_num x y = NaN"

fun less_num :: "number \<Rightarrow> number \<Rightarrow> bool" where
  "less_num (Num a) (Num b) = (a < b)"
| "less_num NaN y = False"
| "less_num x NaN = False"
| "less_num x NInf = False"
| "less_num PInf y = False"
| "less_num x y = True"

fun le_num :: "number \<Rightarrow> number \<Rightarrow> bool" where
  "le_num (Num a) (Num b) = (a \<le> b)"
| "le_num NaN y = False"
| "le_num x NaN = False"
| "le_num NInf y = True"
| "le_num x PInf = True"
| "le_num x y = False"

text \<open>\<open>Math.max\<close> and \<open>Math.min\<close> of two arguments: \<open>NaN\<close> if either is.\<close>

fun max_num :: "number \<Rightarrow> number \<Rightarrow> number" where
  "max_num NaN y = NaN"
| "max_num x NaN = NaN"
| "max_num x y = (if le_num x y then y else x)"

fun min_num :: "number \<Rightarrow> number \<Rightarrow> number" where
  "min_num NaN y = NaN"
| "min_num x NaN = NaN"
| "min_num x y = (if le_num x y then x else y)"

text \<open>
  \<open>Math.max(...data)\<close> and \<open>Math.min(...data)\<close>: with no argument the results are
  \<open>-Infinity\<close> and \<open>Infinity\<close>.
\<close>

definition Math_max :: "number list \<Rightarrow> number" where
  "Math_max xs = foldl max_num NInf xs"

definition Math_min :: "number list \<Rightarrow> number" where
  "Math_min xs = foldl min_num PInf xs"

fun Math_sqrt :: "number \<Rightarrow> number" where
  "Math_sqrt (Num a) = (if a < 0 then NaN else Num (sqrt a))"
| "Math_sqrt PInf = PInf"
| "Math_sqrt NInf = NaN"
| "Math_sqrt NaN = NaN"

fun Math_exp :: "number \<Rightarrow> number" where
  "Math_exp (Num a) = Num (exp a)"
| "Math_exp PInf = PInf"
| "Math_exp NInf = Num 0"
| "Math_exp NaN = NaN"

fun Math_tanh :: "number \<Rightarrow> number" where
  "Math_tanh (Num a) = Num (tanh a)"
| "Math_tanh PInf = Num 1"
| "Math_tanh NInf = Num (- 1)"
| "Math_tanh NaN = NaN"

text \<open>\<open>Math.pow(x, 2)\<close>.\<close>

definition Math_pow2 :: "number \<Rightarrow> number" where
  "Math_pow2 x = mul x x"

text \<open>
  Reading an array of numbers at an index: out of range the source reads
  \<open>undefined\<close>, which every arithmetic operation turns into \<open>NaN\<close>.
\<close>

definition elem_at :: "number list \<Rightarrow> nat \<Rightarrow> number" where
  "elem_at xs i = (if i < length xs then xs ! i else NaN)"

text \<open>
  \<open>xs.slice(-k)\<close> for a count \<open>k \<ge> 0\<close>: the last \<open>k\<close> elements, and the whole
  array when \<open>k\<close> is \<open>0\<close> (\<open>slice(-0)\<close> is \<open>slice(0)\<close>) or exceeds the length.
\<close>

definition slice_last :: "nat \<Rightarrow> 'a list \<Rightarrow> 'a list" where
  "slice_last k xs = (if k = 0 then xs else drop (length xs - k) xs)"

definition finite_num :: "number \<Rightarrow> bool" where
  "finite_num x = (case x of Num a \<Rightarrow> True | _ \<Rightarrow> False)"

section \<open>Normalizer\<close>

record normalized_data =
  normalized :: "number list"
  nmin :: number
  nmax :: number

definition normalizeData :: "number list \<Rightarrow> normalized_data" where
  "normalizeData data =
     (let mn = Math_min data;
          mx = Math_max data;
          range = sub mx mn
      in \<lparr> normalized = map (\<lambda>val. divide_num (sub val mn) range) data,
           nmin = mn, nmax = mx \<rparr>)"

definition denormalize :: "number \<Rightarrow> number \<Rightarrow> number \<Rightarrow> number" where
  "denormalize normalizedVal mn mx = add (mul normalizedVal (sub mx mn)) mn"

section \<open>Trend forecaster\<close>

text \<open>
  A \<open>Date\<close> is its time value, the milliseconds since the epoch in UTC, and the local
  time zone is the function \<open>LocalTZA\<close> of the language: the offset of local time from
  UTC, in milliseconds, at a time that is given in UTC (flag \<open>True\<close>) or in local time
  (flag \<open>False\<close>). Time values stay far from the limits of the time range.

  \<open>setDate(today.getDate() + i)\<close> moves the local time \<open>i\<close> days ahead, keeping the
  time within the day, and converts it back to UTC. \<open>toISOString().split('T')[0]\<close>
  is the UTC calendar date; it is modelled by its day number since the epoch, of
  which the text of the date is a one-to-one, increasing function.
\<close>

type_synonym zone = "int \<Rightarrow> bool \<Rightarrow> int"

definition msPerDay :: int where
  "msPerDay = 86400000"

definition LocalTime :: "zone \<Rightarrow> int \<Rightarrow> int" where
  "LocalTime tza t = t + tza t True"

definition UTC :: "zone \<Rightarrow> int \<Rightarrow> int" where
  "UTC tza t = t - tza t False"

definition setDate_plus :: "zone \<Rightarrow> int \<Rightarrow> int \<Rightarrow> int" where
  "setDate_plus tza t i = UTC tza (LocalTime tza t + i * msPerDay)"

definition iso_date :: "int \<Rightarrow> int" where
  "iso_date t = t div msPerDay"

text \<open>
  The horizon \<open>daysToPredict\<close> is the result of \<open>parseInt\<close>: an integer, or
  \<open>NaN\<close>, which is \<open>None\<close> here.
\<close>

record prediction =
  date :: int
  predicted_price :: number
  confidence_lower :: number
  confidence_upper :: number

datatype error = Error string

record ols_sums =
  sumX :: number
  sumY :: number
  sumXY :: number
  sumX2 :: number

text \<open>
  The summation loop over \<open>recentPrices\<close>: \<open>i\<close> is the index of the head of the
  remaining prices.
\<close>

fun sums_loop :: "nat \<Rightarrow> number list \<Rightarrow> ols_sums \<Rightarrow> ols_sums" where
  "sums_loop i [] s = s"
| "sums_loop i (p # ps) s =
     sums_loop (i + 1) ps
       \<lparr> sumX = add (sumX s) (Num (real i)),
         sumY = add (sumY s) p,
         sumXY = add (sumXY s) (mul (Num (real i)) p),
         sumX2 = add (sumX2 s) (mul (Num (real i)) (Num (real i))) \<rparr>"

definition windowSize :: "nat \<Rightarrow> nat" where
  "windowSize n = min 30 (n div 3)"

definition ols_denominator :: "number list \<Rightarrow> number" where
  "ols_denominator recentPrices =
     (let s = sums_loop 0 recentPrices \<lparr> sumX = Num 0, sumY = Num 0, sumXY = Num 0, sumX2 = Num 0 \<rparr>
      in sub (mul (Num (real (length recentPrices))) (sumX2 s)) (mul (sumX s) (sumX s)))"

definition ols_slope :: "number list \<Rightarrow> number" where
  "ols_slope recentPrices =
     (let s = sums_loop 0 recentPrices \<lparr> sumX = Num 0, sumY = Num 0, sumXY = Num 0, sumX2 = Num 0 \<rparr>
      in divide_num
           (sub (mul (Num (real (length recentPrices))) (sumXY s)) (mul (sumX s) (sumY s)))
           (ols_denominator recentPrices))"

definition ols_intercept :: "number list \<Rightarrow> number" where
  "ols_intercept recentPrices =
     (let s = sums_loop 0 recentPrices \<lparr> sumX = Num 0, sumY = Num 0, sumXY = Num 0, sumX2 = Num 0 \<rparr>
      in divide_num (sub (sumY s) (mul (ols_slope recentPrices) (sumX s)))
           (Num (real (length recentPrices))))"

text \<open>
  Mean and population standard deviation of a window, from its sum \<open>sum_y\<close>:
  \<open>reduce((acc, price) => acc + Math.pow(price - mean, 2), 0) / length\<close>.
\<close>

definition stdDev_of :: "number \<Rightarrow> number list \<Rightarrow> number" where
  "stdDev_of sum_y recentPrices =
     (let mean = divide_num sum_y (Num (real (length recentPrices)));
          variance = divide_num
            (foldl (\<lambda>acc price. add acc (Math_pow2 (sub price mean))) (Num 0) recentPrices)
            (Num (real (length recentPrices)))
      in Math_sqrt variance)"

definition clamp_around :: "number \<Rightarrow> number \<Rightarrow> number \<Rightarrow> number" where
  "clamp_around lastPrice maxChange price =
     max_num (sub lastPrice maxChange) (min_num (add lastPrice maxChange) price)"

definition lr_confidenceMultiplier :: "int \<Rightarrow> int \<Rightarrow> number" where
  "lr_confidenceMultiplier i daysToPredict =
     add (Num 1) (mul (divide_num (Num (real_of_int i)) (Num (real_of_int daysToPredict))) (Num 0.5))"

definition lr_confidenceRange :: "number \<Rightarrow> int \<Rightarrow> int \<Rightarrow> number" where
  "lr_confidenceRange stdDev i daysToPredict =
     mul (mul stdDev (lr_confidenceMultiplier i daysToPredict)) (Num 1.96)"

text \<open>The body of the prediction loop, for day \<open>i\<close>.\<close>

definition lr_prediction ::
  "zone \<Rightarrow> int \<Rightarrow> number \<Rightarrow> number \<Rightarrow> number \<Rightarrow> number \<Rightarrow> nat \<Rightarrow> int \<Rightarrow> int \<Rightarrow> prediction" where
  "lr_prediction tza today slope intercept stdDev lastPrice len daysToPredict i =
     (let predictedPrice = add (mul slope (Num (real len + real_of_int i))) intercept;
          maxChange = mul lastPrice (Num 0.15);
          clampedPrice = clamp_around lastPrice maxChange predictedPrice;
          confidenceRange = lr_confidenceRange stdDev i daysToPredict
      in \<lparr> date = iso_date (setDate_plus tza today i),
           predicted_price = max_num (Num 0) clampedPrice,
           confidence_lower = max_num (Num 0) (sub clampedPrice confidenceRange),
           confidence_upper = add clampedPrice confidenceRange \<rparr>)"

function lr_loop ::
  "(int \<Rightarrow> prediction) \<Rightarrow> int \<Rightarrow> int \<Rightarrow> prediction list \<Rightarrow> prediction list" where
  "lr_loop loop_body i daysToPredict predictions =
     (if i \<le> daysToPredict
      then lr_loop loop_body (i + 1) daysToPredict (predictions @ [loop_body i])
      else predictions)"
  by pat_completeness auto
termination
  by (relation "measure (\<lambda>(loop_body, i, d, ps). nat (d + 1 - i))") auto

declare lr_loop.simps [simp del]

definition predictLinearRegression ::
  "zone \<Rightarrow> int \<Rightarrow> number list \<Rightarrow> int option \<Rightarrow> error + prediction list" where
  "predictLinearRegression tza today historicalPrices daysToPredict =
     (let n = length historicalPrices in
      if n < 10 then Inl (Error ''Insufficient historical data for prediction'')
      else
        let recentPrices = slice_last (windowSize n) historicalPrices;
            s = sums_loop 0 recentPrices \<lparr> sumX = Num 0, sumY = Num 0, sumXY = Num 0, sumX2 = Num 0 \<rparr>;
            slope = ols_slope recentPrices;
            intercept = ols_intercept recentPrices;
            stdDev = stdDev_of (sumY s) recentPrices;
            lastPrice = elem_at historicalPrices (n - 1)
        in case daysToPredict of
             None \<Rightarrow> Inr []
           | Some d \<Rightarrow>
               Inr (lr_loop (lr_prediction tza today slope intercept stdDev lastPrice
                      (length recentPrices) d) 1 d []))"

section \<open>Recurrent forecaster\<close>

definition sigmoid :: "number \<Rightarrow> number" where
  "sigmoid x = divide_num (Num 1) (add (Num 1) (Math_exp (neg x)))"

record SimpleLSTMCell =
  cell_hiddenSize :: nat
  Wf :: "number list list"
  Wi :: "number list list"
  Wc :: "number list list"
  Wo :: "number list list"

text \<open>
  \<open>Math.random()\<close> is modelled by a sequence \<open>rnd\<close> of reals and the index \<open>k\<close> of
  the next value: a call returns \<open>rnd k\<close> and moves the index on.
\<close>

fun init_row :: "(nat \<Rightarrow> real) \<Rightarrow> number \<Rightarrow> nat \<Rightarrow> nat \<Rightarrow> number list \<times> nat" where
  "init_row rnd scale 0 k = ([], k)"
| "init_row rnd scale (Suc cols) k =
     (let w = mul (mul (sub (Num (rnd k)) (Num 0.5)) (Num 2)) scale;
          (row, k') = init_row rnd scale cols (k + 1)
      in (w # row, k'))"

fun init_rows :: "(nat \<Rightarrow> real) \<Rightarrow> number \<Rightarrow> nat \<Rightarrow> nat \<Rightarrow> nat \<Rightarrow> number list list \<times> nat" where
  "init_rows rnd scale 0 cols k = ([], k)"
| "init_rows rnd scale (Suc rows) cols k =
     (let (row, k') = init_row rnd scale cols k;
          (weights, k'') = init_rows rnd scale rows cols k'
      in (row # weights, k''))"

definition initWeights :: "(nat \<Rightarrow> real) \<Rightarrow> nat \<Rightarrow> nat \<Rightarrow> nat \<Rightarrow> number list list \<times> nat" where
  "initWeights rnd rows cols k =
     (let scale = Math_sqrt (divide_num (Num 2) (Num (real (rows + cols))))
      in init_rows rnd scale rows cols k)"

definition new_SimpleLSTMCell :: "(nat \<Rightarrow> real) \<Rightarrow> nat \<Rightarrow> nat \<Rightarrow> nat \<Rightarrow> SimpleLSTMCell \<times> nat" where
  "new_SimpleLSTMCell rnd inputSize hiddenSize k =
     (let (wf, k1) = initWeights rnd hiddenSize (inputSize + hiddenSize) k;
          (wi, k2) = initWeights rnd hiddenSize (inputSize + hiddenSize) k1;
          (wc, k3) = initWeights rnd hiddenSize (inputSize + hiddenSize) k2;
          (wo, k4) = initWeights rnd hiddenSize (inputSize + hiddenSize) k3
      in (\<lparr> cell_hiddenSize = hiddenSize, Wf = wf, Wi = wi, Wc = wc, Wo = wo \<rparr>, k4))"

text \<open>
  The inner loop of \<open>matMul\<close>: \<open>sum += weights[i][j] * input[j]\<close> for every index
  \<open>j\<close> of the input; past the end of the row the weight read is \<open>undefined\<close>.
\<close>

fun row_sum :: "number list \<Rightarrow> number list \<Rightarrow> number \<Rightarrow> number" where
  "row_sum ws [] acc = acc"
| "row_sum [] (x # xs) acc = row_sum [] xs (add acc (mul NaN x))"
| "row_sum (w # ws) (x # xs) acc = row_sum ws xs (add acc (mul w x))"

definition matMul :: "number list list \<Rightarrow> number list \<Rightarrow> number list" where
  "matMul weights input = map (\<lambda>row. row_sum row input (Num 0)) weights"

definition forward ::
  "SimpleLSTMCell \<Rightarrow> number \<Rightarrow> number list \<Rightarrow> number list \<Rightarrow> number list \<times> number list" where
  "forward cell x h c =
     (let combined = x # h;
          ft = map sigmoid (matMul (Wf cell) combined);
          it = map sigmoid (matMul (Wi cell) combined);
          cTilde = map Math_tanh (matMul (Wc cell) combined);
          ot = map sigmoid (matMul (Wo cell) combined);
          newC = map (\<lambda>(cVal, i). add (mul (elem_at ft i) cVal) (mul (elem_at it i) (elem_at cTilde i)))
                   (zip c [0..<length c]);
          newH = map (\<lambda>(cVal, i). mul (elem_at ot i) (Math_tanh cVal)) (zip newC [0..<length newC])
      in (newH, newC))"

record SimpleLSTM =
  cell :: SimpleLSTMCell
  hiddenSize :: nat
  outputWeights :: "number list"

fun init_outputWeights :: "(nat \<Rightarrow> real) \<Rightarrow> nat \<Rightarrow> nat \<Rightarrow> number list \<times> nat" where
  "init_outputWeights rnd 0 k = ([], k)"
| "init_outputWeights rnd (Suc m) k =
     (let w = mul (sub (Num (rnd k)) (Num 0.5)) (Num 0.1);
          (ws, k') = init_outputWeights rnd m (k + 1)
      in (w # ws, k'))"

definition new_SimpleLSTM :: "(nat \<Rightarrow> real) \<Rightarrow> nat \<Rightarrow> nat \<Rightarrow> SimpleLSTM \<times> nat" where
  "new_SimpleLSTM rnd hidden k =
     (let (cl, k1) = new_SimpleLSTMCell rnd 1 hidden k;
          (ow, k2) = init_outputWeights rnd hidden k1
      in (\<lparr> cell = cl, hiddenSize = hidden, outputWeights = ow \<rparr>, k2))"

text \<open>\<open>h.reduce((sum, val, idx) => sum + val * this.outputWeights[idx], 0)\<close>.\<close>

definition readout :: "number list \<Rightarrow> number list \<Rightarrow> number" where
  "readout h ow =
     foldl (\<lambda>acc (val, idx). add acc (mul val (elem_at ow idx))) (Num 0) (zip h [0..<length h])"

text \<open>
  Writing an array at an index: at or past its end the array grows, and the elements
  in between are holes, which read as \<open>undefined\<close>.
\<close>

definition set_at :: "number list \<Rightarrow> nat \<Rightarrow> number \<Rightarrow> number list" where
  "set_at xs j v =
     (if j < length xs then xs[j := v] else xs @ replicate (j - length xs) NaN @ [v])"

text \<open>
  \<open>for (let j = 0; j < this.hiddenSize; j++) this.outputWeights[j] += learningRate * error * h[j]\<close>.
\<close>

definition update_outputWeights :: "number \<Rightarrow> number \<Rightarrow> number list \<Rightarrow> nat \<Rightarrow> number list \<Rightarrow> number list" where
  "update_outputWeights learningRate err h hidden ow =
     fold (\<lambda>j ws. set_at ws j (add (elem_at ws j) (mul (mul learningRate err) (elem_at h j))))
       [0..<hidden] ow"

text \<open>
  One epoch: the loop over the adjacent pairs \<open>(data[i], data[i + 1])\<close>, the head of the
  remaining data being \<open>data[i]\<close>.
\<close>

fun train_epoch :: "SimpleLSTM \<Rightarrow> number list \<Rightarrow> number list \<Rightarrow> number list \<Rightarrow> SimpleLSTM" where
  "train_epoch lstm h c (x # y # rest) =
     (let (h', c') = forward (cell lstm) x h c;
          predicted = readout h' (outputWeights lstm);
          err = sub y predicted;
          lstm' = lstm \<lparr> outputWeights :=
                    update_outputWeights (Num 0.001) err h' (hiddenSize lstm) (outputWeights lstm) \<rparr>
      in train_epoch lstm' h' c' (y # rest))"
| "train_epoch lstm h c data = lstm"

fun train :: "SimpleLSTM \<Rightarrow> number list \<Rightarrow> nat \<Rightarrow> SimpleLSTM" where
  "train lstm data 0 = lstm"
| "train lstm data (Suc epochs) =
     train (train_epoch lstm (replicate (hiddenSize lstm) (Num 0)) (replicate (hiddenSize lstm) (Num 0)) data)
       data epochs"

text \<open>
  The prediction loop of \<open>predict\<close>, with the number of iterations still to run.
\<close>

fun predict_loop ::
  "SimpleLSTM \<Rightarrow> nat \<Rightarrow> number \<Rightarrow> number list \<Rightarrow> number list \<Rightarrow> number list \<Rightarrow> number list" where
  "predict_loop lstm 0 lastInput h c predictions = predictions"
| "predict_loop lstm (Suc m) lastInput h c predictions =
     (let (h', c') = forward (cell lstm) lastInput h c;
          predicted = readout h' (outputWeights lstm)
      in predict_loop lstm m predicted h' c' (predictions @ [predicted]))"

text \<open>
  \<open>for (let i = 0; i < steps; i++)\<close> runs \<open>steps\<close> times for a positive integer and
  not at all for \<open>NaN\<close> or an integer below \<open>1\<close>.
\<close>

definition iterations :: "int option \<Rightarrow> nat" where
  "iterations steps = (case steps of None \<Rightarrow> 0 | Some d \<Rightarrow> nat d)"

definition predict :: "SimpleLSTM \<Rightarrow> number list \<Rightarrow> int option \<Rightarrow> number list" where
  "predict lstm lastValues steps =
     (let zeros = replicate (hiddenSize lstm) (Num 0);
          (h, c) = foldl (\<lambda>(h, c) val. forward (cell lstm) val h c) (zeros, zeros) lastValues;
          lastInput = elem_at lastValues (length lastValues - 1)
      in predict_loop lstm (iterations steps) lastInput h c [])"

definition lstm_smoothingFactor :: "nat \<Rightarrow> number" where
  "lstm_smoothingFactor i =
     add (Num 0.7) (mul (Num 0.3) (Math_exp (divide_num (neg (Num (real i))) (Num 10))))"

text \<open>
  The body of the post-processing loop, for the index \<open>i\<close>; the loop pushes one
  prediction for each of \<open>i = 0, ..., daysToPredict - 1\<close>.
\<close>

definition lstm_prediction ::
  "zone \<Rightarrow> int \<Rightarrow> number \<Rightarrow> number \<Rightarrow> number list \<Rightarrow> int \<Rightarrow> nat \<Rightarrow> prediction" where
  "lstm_prediction tza today stdDev lastPrice actualPredictions daysToPredict i =
     (let rawPrediction = elem_at actualPredictions i;
          smoothingFactor = lstm_smoothingFactor i;
          smoothedPrediction =
            add (mul rawPrediction smoothingFactor) (mul lastPrice (sub (Num 1) smoothingFactor));
          maxDeviation = mul lastPrice (Num 0.20);
          clampedPrice = clamp_around lastPrice maxDeviation smoothedPrediction;
          confidenceMultiplier =
            add (Num 1) (mul (divide_num (Num (real i)) (Num (real_of_int daysToPredict))) (Num 0.6));
          confidenceRange = mul (mul stdDev confidenceMultiplier) (Num 2.0)
      in \<lparr> date = iso_date (setDate_plus tza today (int i + 1)),
           predicted_price = max_num (Num 0) clampedPrice,
           confidence_lower = max_num (Num 0) (sub clampedPrice confidenceRange),
           confidence_upper = add clampedPrice confidenceRange \<rparr>)"

definition predictLSTM ::
  "zone \<Rightarrow> int \<Rightarrow> (nat \<Rightarrow> real) \<Rightarrow> number list \<Rightarrow> int option \<Rightarrow> error + prediction list" where
  "predictLSTM tza today rnd historicalPrices daysToPredict =
     (let n = length historicalPrices in
      if n < 60 then Inl (Error ''LSTM requires at least 60 days of historical data'')
      else
        let nd = normalizeData historicalPrices;
            lstm = train (fst (new_SimpleLSTM rnd 50 0)) (normalized nd) 50;
            lookbackWindow = min 60 n;
            lastValues = slice_last lookbackWindow (normalized nd);
            normalizedPredictions = predict lstm lastValues daysToPredict;
            actualPredictions = map (\<lambda>val. denormalize val (nmin nd) (nmax nd)) normalizedPredictions;
            recentPrices = slice_last 30 historicalPrices;
            stdDev = stdDev_of (foldl add (Num 0) recentPrices) recentPrices;
            lastPrice = elem_at historicalPrices (n - 1)
        in case daysToPredict of
             None \<Rightarrow> Inr []
           | Some d \<Rightarrow>
               Inr (map (lstm_prediction tza today stdDev lastPrice actualPredictions d) [0..<nat d]))"

section \<open>Forecast orchestrator\<close>

text \<open>
  A string of the program is the list of its code points; \<open>ascii\<close> makes one of a
  literal.
\<close>

type_synonym js_string = "nat list"

definition ascii :: "string \<Rightarrow> js_string" where
  "ascii str = map of_char str"

text \<open>
  \<open>parseInt\<close> with no radix, as the language defines it: leading white space and
  line terminators are skipped, a sign is read, a prefix \<open>0x\<close> or \<open>0X\<close> selects base
  sixteen, and the longest run of digits of the base is the value; with no digit the
  result is \<open>NaN\<close> (\<open>None\<close>). The value is the exact integer.
\<close>

definition is_space :: "nat \<Rightarrow> bool" where
  "is_space c =
     (c \<in> {0x09, 0x0A, 0x0B, 0x0C, 0x0D, 0x20, 0xA0, 0x1680, 0x2028, 0x2029, 0x202F, 0x205F,
            0x3000, 0xFEFF}
      \<or> (0x2000 \<le> c \<and> c \<le> 0x200A))"

definition digit_value :: "nat \<Rightarrow> nat option" where
  "digit_value n =
     (if 48 \<le> n \<and> n \<le> 57 then Some (n - 48)
      else if 97 \<le> n \<and> n \<le> 122 then Some (n - 87)
      else if 65 \<le> n \<and> n \<le> 90 then Some (n - 55)
      else None)"

definition is_digit :: "nat \<Rightarrow> nat \<Rightarrow> bool" where
  "is_digit radix c = (case digit_value c of None \<Rightarrow> False | Some v \<Rightarrow> v < radix)"

definition digits_value :: "nat \<Rightarrow> js_string \<Rightarrow> nat" where
  "digits_value radix ds = foldl (\<lambda>acc c. acc * radix + the (digit_value c)) 0 ds"

definition parseInt :: "js_string \<Rightarrow> int option" where
  "parseInt str =
     (let s1 = dropWhile is_space str;
          (sgn, s2) = (case s1 of
                         c # r \<Rightarrow> if c = 45 then (- 1, r)
                                  else if c = 43 then (1, r) else (1, s1)
                       | [] \<Rightarrow> (1 :: int, s1));
          (radix, s3) = (case s2 of
                           c # x # r \<Rightarrow> if c = 48 \<and> (x = 120 \<or> x = 88)
                                        then (16, r) else (10, s2)
                         | _ \<Rightarrow> (10 :: nat, s2));
          ds = takeWhile (is_digit radix) s3
      in if ds = [] then None else Some (sgn * int (digits_value radix ds)))"

text \<open>
  \<open>toUpperCase\<close> replaces every code point by its upper-case mapping in the Unicode
  character database, which is one code point or several. The database is a
  parameter: \<open>mapping c\<close> is the first code point of the mapping of \<open>c\<close> and the rest.
\<close>

type_synonym case_mapping = "nat \<Rightarrow> nat \<times> nat list"

definition toUpperCase :: "case_mapping \<Rightarrow> js_string \<Rightarrow> js_string" where
  "toUpperCase mapping str = concat (map (\<lambda>c. fst (mapping c) # snd (mapping c)) str)"

text \<open>The upper-case mapping on the code points below 128.\<close>

definition ascii_upper :: case_mapping where
  "ascii_upper c = (if 97 \<le> c \<and> c \<le> 122 then c - 32 else c, [])"

text \<open>
  A request is its method and the two query parameters the handler reads;
  \<open>searchParams.get\<close> gives \<open>null\<close> (\<open>None\<close>) for an absent parameter.
\<close>

record request =
  http_method :: js_string
  ticker_param :: "js_string option"
  days_param :: "js_string option"

text \<open>
  The result of the query on the table of historical prices: its error, and its rows
  (or \<open>null\<close>). The \<open>close\<close> of a row is the number \<open>parseFloat\<close> makes of it.
\<close>

record stock_row =
  close :: number
  row_date :: int

record query_result =
  dbError :: "string option"
  historicalData :: "stock_row list option"

text \<open>
  What a request meets outside the handler: the local time zone, the clock (the time
  values of the successive \<open>new Date()\<close>), the sequence of random numbers, the
  upper-case mapping, and the table of historical prices by ticker.
\<close>

record environment =
  LocalTZA :: zone
  clock :: "nat \<Rightarrow> int"
  random :: "nat \<Rightarrow> real"
  upper_case :: case_mapping
  stock_data :: "js_string \<Rightarrow> query_result"

record ModelPredictions =
  model :: string
  predictions :: "prediction list"

record forecast =
  ticker :: js_string
  prediction_days :: "int option"
  models :: "ModelPredictions list"
  lstm_error :: "string option"
  disclaimer :: string

datatype body =
    NoBody
  | ErrorBody string
  | ErrorDetails string string
  | Forecast forecast

record response =
  status :: nat
  body :: body

record prediction_record =
  rec_ticker :: js_string
  rec_prediction_date :: int
  rec_target_date :: int
  rec_predicted_price :: number
  rec_confidence_lower :: number
  rec_confidence_upper :: number
  rec_model_version :: string

definition to_record :: "js_string \<Rightarrow> int \<Rightarrow> string \<Rightarrow> prediction \<Rightarrow> prediction_record" where
  "to_record tk predictionDate version pred =
     \<lparr> rec_ticker = tk, rec_prediction_date = predictionDate, rec_target_date = date pred,
       rec_predicted_price = predicted_price pred,
       rec_confidence_lower = confidence_lower pred,
       rec_confidence_upper = confidence_upper pred,
       rec_model_version = version \<rparr>"

text \<open>The comparisons \<open>days < 1\<close> and \<open>days > 90\<close>: false when \<open>days\<close> is \<open>NaN\<close>.\<close>

definition days_less :: "int option \<Rightarrow> int \<Rightarrow> bool" where
  "days_less days k = (case days of None \<Rightarrow> False | Some d \<Rightarrow> d < k)"

definition days_greater :: "int option \<Rightarrow> int \<Rightarrow> bool" where
  "days_greater days k = (case days of None \<Rightarrow> False | Some d \<Rightarrow> d > k)"

text \<open>
  The \<open>try\<close> block around the recurrent model: its predictions (none on failure) and
  the error note. The recurrent model reads the clock after the trend model has.
\<close>

definition try_lstm ::
  "environment \<Rightarrow> number list \<Rightarrow> int option \<Rightarrow> prediction list \<times> string option" where
  "try_lstm env closingPrices days =
     (if length closingPrices \<ge> 60
      then (case predictLSTM (LocalTZA env) (clock env 1) (random env) closingPrices days of
              Inr ps \<Rightarrow> (ps, None)
            | Inl (Error message) \<Rightarrow> ([], Some message))
      else ([], Some ''Insufficient data for LSTM (requires 60+ days)''))"

text \<open>
  The two parameters as the handler reads them:
  \<open>searchParams.get('ticker')?.toUpperCase()\<close> and
  \<open>parseInt(searchParams.get('days') || '30')\<close>.
\<close>

definition requested_ticker :: "environment \<Rightarrow> request \<Rightarrow> js_string option" where
  "requested_ticker env req = map_option (toUpperCase (upper_case env)) (ticker_param req)"

definition requested_days :: "request \<Rightarrow> int option" where
  "requested_days req =
     parseInt (case days_param req of
                 None \<Rightarrow> ascii ''30''
               | Some str \<Rightarrow> if str = [] then ascii ''30'' else str)"

text \<open>
  The handler: the response, and the records it inserts into the table of predictions.
  The date of the insertion is read from the clock after the models have run.
\<close>

definition serve :: "environment \<Rightarrow> request \<Rightarrow> response \<times> prediction_record list" where
  "serve env req =
     (if http_method req = ascii ''OPTIONS'' then (\<lparr> status = 200, body = NoBody \<rparr>, [])
      else
        let tk = requested_ticker env req;
            days = requested_days req
        in if tk = None \<or> tk = Some [] then
             (\<lparr> status = 400, body = ErrorBody ''Ticker symbol is required'' \<rparr>, [])
           else if days_less days 1 \<or> days_greater days 90 then
             (\<lparr> status = 400, body = ErrorBody ''Days must be between 1 and 90'' \<rparr>, [])
           else
             let res = stock_data env (the tk) in
             if dbError res \<noteq> None then
               (\<lparr> status = 500, body = ErrorBody ''Failed to fetch historical data'' \<rparr>, [])
             else if historicalData res = None \<or> length (the (historicalData res)) < 10 then
               (\<lparr> status = 400,
                  body = ErrorBody ''Insufficient historical data. Please fetch stock data first.'' \<rparr>, [])
             else
               let closingPrices = map close (the (historicalData res)) in
               case predictLinearRegression (LocalTZA env) (clock env 0) closingPrices days of
                 Inl (Error message) \<Rightarrow>
                   (\<lparr> status = 500, body = ErrorDetails ''Internal server error'' message \<rparr>, [])
               | Inr lrPredictions \<Rightarrow>
                   let (lstmPredictions, lstmError) = try_lstm env closingPrices days;
                       predictionDate =
                         iso_date (clock env (if length closingPrices \<ge> 60 then 2 else 1));
                       recordsToInsert =
                         map (to_record (the tk) predictionDate ''linear_regression'') lrPredictions
                         @ (if length lstmPredictions > 0
                            then map (to_record (the tk) predictionDate ''lstm'') lstmPredictions
                            else []);
                       mods = [\<lparr> model = ''linear_regression'', predictions = lrPredictions \<rparr>]
                              @ (if length lstmPredictions > 0
                                 then [\<lparr> model = ''lstm'', predictions = lstmPredictions \<rparr>]
                                 else [])
                   in (\<lparr> status = 200,
                         body = Forecast
                           \<lparr> ticker = the tk, prediction_days = days, models = mods,
                             lstm_error = lstmError,
                             disclaimer = ''These predictions are for educational purposes only and should not be used for actual trading decisions.'' \<rparr> \<rparr>,
                       recordsToInsert))"

section \<open>Models with finite weights\<close>

text \<open>
  A matrix of the given size with finite entries, a list of finite numbers, a cell of
  the given hidden size whose four matrices are finite, and a model whose cell and
  readout weights are finite and of the sizes the constructor gives them.
\<close>

definition finite_matrix :: "nat \<Rightarrow> nat \<Rightarrow> number list list \<Rightarrow> bool" where
  "finite_matrix rows cols w \<longleftrightarrow>
     length w = rows \<and> (\<forall>r\<in>set w. length r = cols \<and> (\<forall>x\<in>set r. finite_num x))"

definition finite_list :: "number list \<Rightarrow> bool" where
  "finite_list xs \<longleftrightarrow> (\<forall>x\<in>set xs. finite_num x)"

definition finite_cell :: "nat \<Rightarrow> SimpleLSTMCell \<Rightarrow> bool" where
  "finite_cell hs cl \<longleftrightarrow>
     finite_matrix hs (Suc hs) (Wf cl) \<and> finite_matrix hs (Suc hs) (Wi cl) \<and>
     finite_matrix hs (Suc hs) (Wc cl) \<and> finite_matrix hs (Suc hs) (Wo cl)"

definition finite_lstm :: "SimpleLSTM \<Rightarrow> bool" where
  "finite_lstm l \<longleftrightarrow>
     finite_cell (hiddenSize l) (cell l) \<and> length (outputWeights l) = hiddenSize l \<and>
     finite_list (outputWeights l)"

section \<open>Arithmetic on finite numbers\<close>

lemma finite_num_iff: "finite_num x \<longleftrightarrow> (\<exists>a. x = Num a)"
  by (cases x) (simp_all add: finite_num_def)

lemma sub_Num [simp]: "sub (Num a) (Num b) = Num (a - b)"
  by (simp add: sub_def)

lemma max_num_Num [simp]: "max_num (Num a) (Num b) = Num (max a b)"
  by (simp add: max_def)

lemma min_num_Num [simp]: "min_num (Num a) (Num b) = Num (min a b)"
  by (simp add: min_def)

section \<open>The least-squares sums\<close>

lemma sums_loop_sumX:
  "sumX s = Num a \<Longrightarrow> sumX (sums_loop i ps s) = Num (a + (\<Sum>k<length ps. real (i + k)))"
proof (induction ps arbitrary: i s a)
  case Nil
  then show ?case by simp
next
  case (Cons p ps)
  let ?s' = "\<lparr> sumX = add (sumX s) (Num (real i)), sumY = add (sumY s) p,
         sumXY = add (sumXY s) (mul (Num (real i)) p),
         sumX2 = add (sumX2 s) (mul (Num (real i)) (Num (real i))) \<rparr>"
  have "sumX ?s' = Num (a + real i)" using Cons.prems by simp
  from Cons.IH [OF this, of "i + 1"]
  show ?case by (simp add: sum.lessThan_Suc_shift ac_simps del: sum.lessThan_Suc)
qed

lemma sums_loop_sumX2:
  "sumX2 s = Num a \<Longrightarrow>
   sumX2 (sums_loop i ps s) = Num (a + (\<Sum>k<length ps. real (i + k) * real (i + k)))"
proof (induction ps arbitrary: i s a)
  case Nil
  then show ?case by simp
next
  case (Cons p ps)
  let ?s' = "\<lparr> sumX = add (sumX s) (Num (real i)), sumY = add (sumY s) p,
         sumXY = add (sumXY s) (mul (Num (real i)) p),
         sumX2 = add (sumX2 s) (mul (Num (real i)) (Num (real i))) \<rparr>"
  have "sumX2 ?s' = Num (a + real i * real i)" using Cons.prems by simp
  from Cons.IH [OF this, of "i + 1"]
  show ?case by (simp add: sum.lessThan_Suc_shift ac_simps del: sum.lessThan_Suc)
qed

lemma sums_loop_sumY:
  "sumY s = Num a \<Longrightarrow> sumY (sums_loop i (map Num rs) s) = Num (a + sum_list rs)"
proof (induction rs arbitrary: i s a)
  case Nil
  then show ?case by simp
next
  case (Cons r rs)
  let ?s' = "\<lparr> sumX = add (sumX s) (Num (real i)), sumY = add (sumY s) (Num r),
         sumXY = add (sumXY s) (mul (Num (real i)) (Num r)),
         sumX2 = add (sumX2 s) (mul (Num (real i)) (Num (real i))) \<rparr>"
  have "sumY ?s' = Num (a + r)" using Cons.prems by simp
  from Cons.IH [OF this, of "i + 1"]
  show ?case by (simp add: add.assoc)
qed

lemma sums_loop_sumXY:
  "sumXY s = Num a \<Longrightarrow> finite_num (sumXY (sums_loop i (map Num rs) s))"
proof (induction rs arbitrary: i s a)
  case Nil
  then show ?case by (simp add: finite_num_def)
next
  case (Cons r rs)
  let ?s' = "\<lparr> sumX = add (sumX s) (Num (real i)), sumY = add (sumY s) (Num r),
         sumXY = add (sumXY s) (mul (Num (real i)) (Num r)),
         sumX2 = add (sumX2 s) (mul (Num (real i)) (Num (real i))) \<rparr>"
  have "sumXY ?s' = Num (a + real i * r)" using Cons.prems by simp
  from Cons.IH [OF this, of "i + 1"]
  show ?case by simp
qed

lemma sum_idx: "(\<Sum>k<w. real k) = real w * (real w - 1) / 2"
  by (induction w) (simp_all add: field_simps)

lemma sum_idx2: "(\<Sum>k<w. real k * real k) = real w * (real w - 1) * (2 * real w - 1) / 6"
  by (induction w) (simp_all add: field_simps)

lemma ols_den_closed:
  "real w * (\<Sum>k<w. real k * real k) - (\<Sum>k<w. real k) * (\<Sum>k<w. real k)
     = (real w)^2 * ((real w)^2 - 1) / 12"
  unfolding sum_idx sum_idx2 by (simp add: field_simps power2_eq_square)

lemma ols_denominator_eq:
  "ols_denominator ps = Num ((real (length ps))^2 * ((real (length ps))^2 - 1) / 12)"
proof -
  let ?init = "\<lparr> sumX = Num 0, sumY = Num 0, sumXY = Num 0, sumX2 = Num 0 \<rparr>"
  have x: "sumX (sums_loop 0 ps ?init) = Num (\<Sum>k<length ps. real k)"
    using sums_loop_sumX [of ?init 0 0 ps] by simp
  have x2: "sumX2 (sums_loop 0 ps ?init) = Num (\<Sum>k<length ps. real k * real k)"
    using sums_loop_sumX2 [of ?init 0 0 ps] by simp
  show ?thesis
    unfolding ols_denominator_def Let_def x x2
    using ols_den_closed [of "length ps"] by simp
qed

section \<open>The prediction loop of the trend forecaster\<close>

lemma lr_loop_eq: "lr_loop f i d acc = acc @ map f [i..d]"
proof (induction f i d acc rule: lr_loop.induct)
  case (1 f i d acc)
  show ?case
  proof (cases "i \<le> d")
    case True
    then show ?thesis
      using "1" by (subst lr_loop.simps) (simp add: upto_rec1 [of i d])
  next
    case False
    then show ?thesis by (subst lr_loop.simps) simp
  qed
qed

lemma variance_fold:
  "foldl (\<lambda>acc price. add acc (Math_pow2 (sub price (Num m)))) (Num a) (map Num rs)
     = Num (a + (\<Sum>r\<leftarrow>rs. (r - m) * (r - m)))"
  by (induction rs arbitrary: a) (simp_all add: Math_pow2_def add.assoc)

lemma sum_list_squares_nonneg: "0 \<le> (\<Sum>r\<leftarrow>rs. (r - m) * (r - (m::real)))"
  by (induction rs) simp_all

lemma stdDev_of_finite:
  assumes "rs \<noteq> []"
  shows "\<exists>sd. stdDev_of (Num t) (map Num rs) = Num sd \<and> 0 \<le> sd"
proof -
  have len: "real (length rs) \<noteq> 0" using assms by simp
  have "0 \<le> (\<Sum>r\<leftarrow>rs. (r - t / real (length rs)) * (r - t / real (length rs))) / real (length rs)"
    using sum_list_squares_nonneg [of "t / real (length rs)" rs] by simp
  then show ?thesis
    using len by (simp add: stdDev_of_def Let_def variance_fold not_less)
qed

lemma ols_slope_finite:
  assumes "2 \<le> length rs"
  shows "finite_num (ols_slope (map Num rs))"
proof -
  let ?init = "\<lparr> sumX = Num 0, sumY = Num 0, sumXY = Num 0, sumX2 = Num 0 \<rparr>"
  let ?s = "sums_loop 0 (map Num rs) ?init"
  have x: "sumX ?s = Num (\<Sum>k<length rs. real k)"
    using sums_loop_sumX [of ?init 0 0 "map Num rs"] by simp
  have y: "sumY ?s = Num (sum_list rs)"
    using sums_loop_sumY [of ?init 0 0 rs] by simp
  obtain xy where xy: "sumXY ?s = Num xy"
    using sums_loop_sumXY [of ?init 0 0 rs] by (auto simp: finite_num_iff)
  have "2 \<le> real (length rs)" using assms by simp
  then have "1 < (real (length rs))\<^sup>2"
    by (intro one_less_power) simp_all
  moreover have "rs \<noteq> []" using assms by auto
  ultimately have den: "(real (length rs))\<^sup>2 * ((real (length rs))\<^sup>2 - 1) / 12 \<noteq> 0"
    by simp
  show ?thesis
    unfolding ols_slope_def Let_def x y xy ols_denominator_eq
    using den by (simp add: finite_num_def)
qed

lemma ols_intercept_finite:
  assumes "2 \<le> length rs"
  shows "finite_num (ols_intercept (map Num rs))"
proof -
  let ?init = "\<lparr> sumX = Num 0, sumY = Num 0, sumXY = Num 0, sumX2 = Num 0 \<rparr>"
  let ?s = "sums_loop 0 (map Num rs) ?init"
  have x: "sumX ?s = Num (\<Sum>k<length rs. real k)"
    using sums_loop_sumX [of ?init 0 0 "map Num rs"] by simp
  have y: "sumY ?s = Num (sum_list rs)"
    using sums_loop_sumY [of ?init 0 0 rs] by simp
  obtain sl where sl: "ols_slope (map Num rs) = Num sl"
    using ols_slope_finite [OF assms] by (auto simp: finite_num_iff)
  have "real (length rs) \<noteq> 0" using assms by auto
  then show ?thesis
    unfolding ols_intercept_def Let_def x y sl by (simp add: finite_num_def)
qed

lemma lr_confidenceRange_Num:
  "d \<noteq> 0 \<Longrightarrow>
   lr_confidenceRange (Num sd) i d = Num (sd * (1 + real_of_int i / real_of_int d * 0.5) * 1.96)"
  by (simp add: lr_confidenceRange_def lr_confidenceMultiplier_def)

lemma lr_confidenceRange_nonneg:
  assumes "0 \<le> sd" "0 \<le> i" "0 < d"
  shows "0 \<le> sd * (1 + real_of_int i / real_of_int d * 0.5) * 1.96"
proof -
  have "0 \<le> real_of_int i / real_of_int d" using assms by simp
  then have "0 \<le> 1 + real_of_int i / real_of_int d * 0.5" by simp
  then show ?thesis using assms(1) by simp
qed

lemma lr_prediction_Num:
  assumes "d \<noteq> 0"
  shows "lr_prediction tza today (Num sl) (Num ic) (Num sd) (Num l) len d i =
     \<lparr> date = iso_date (setDate_plus tza today i),
       predicted_price =
         Num (max 0 (max (l - l * 0.15) (min (l + l * 0.15) (sl * (real len + real_of_int i) + ic)))),
       confidence_lower =
         Num (max 0 (max (l - l * 0.15) (min (l + l * 0.15) (sl * (real len + real_of_int i) + ic))
                - sd * (1 + real_of_int i / real_of_int d * 0.5) * 1.96)),
       confidence_upper =
         Num (max (l - l * 0.15) (min (l + l * 0.15) (sl * (real len + real_of_int i) + ic))
                + sd * (1 + real_of_int i / real_of_int d * 0.5) * 1.96) \<rparr>"
  using assms
  by (simp add: lr_prediction_def Let_def clamp_around_def lr_confidenceRange_Num)

lemma lr_prediction_props:
  fixes tza :: zone and today :: int and sl ic sd l :: real and len :: nat and d i :: int
  assumes "0 \<le> sd" "0 \<le> l" "1 \<le> i" "1 \<le> d"
  defines "p \<equiv> lr_prediction tza today (Num sl) (Num ic) (Num sd) (Num l) len d i"
  shows "date p = iso_date (setDate_plus tza today i)"
    and "le_num (Num 0) (predicted_price p)"
    and "le_num (confidence_lower p) (predicted_price p)"
    and "le_num (predicted_price p) (confidence_upper p)"
    and "le_num (Num (l - 0.15 * l)) (predicted_price p)"
    and "le_num (predicted_price p) (Num (l + 0.15 * l))"
proof -
  have d: "d \<noteq> 0" using assms by simp
  have cr: "0 \<le> sd * (1 + real_of_int i / real_of_int d * 0.5) * 1.96"
    using assms by (intro lr_confidenceRange_nonneg) simp_all
  show "date p = iso_date (setDate_plus tza today i)"
    unfolding p_def lr_prediction_Num [OF d] by simp
  show "le_num (Num 0) (predicted_price p)"
    unfolding p_def lr_prediction_Num [OF d] by simp
  show "le_num (confidence_lower p) (predicted_price p)"
    unfolding p_def lr_prediction_Num [OF d] using cr assms(2) by simp
  show "le_num (predicted_price p) (confidence_upper p)"
    unfolding p_def lr_prediction_Num [OF d] using cr assms(2) by simp
  show "le_num (Num (l - 0.15 * l)) (predicted_price p)"
    unfolding p_def lr_prediction_Num [OF d] using assms(2) by simp
  show "le_num (predicted_price p) (Num (l + 0.15 * l))"
    unfolding p_def lr_prediction_Num [OF d] using assms(2) by (simp add: max_def min_def)
qed

lemma windowSize_bounds: "10 \<le> n \<Longrightarrow> 3 \<le> windowSize n \<and> windowSize n \<le> n"
  unfolding windowSize_def by arith

lemma length_slice_last: "k \<le> length xs \<Longrightarrow> 0 < k \<Longrightarrow> length (slice_last k xs) = k"
  by (simp add: slice_last_def)

lemma slice_last_map: "slice_last k (map f xs) = map f (slice_last k xs)"
  by (simp add: slice_last_def drop_map)

lemma finite_list_conv:
  "(\<forall>p\<in>set ps. finite_num p) \<longleftrightarrow> (\<exists>rs. ps = map Num rs)"
proof
  assume "\<forall>p\<in>set ps. finite_num p"
  then show "\<exists>rs. ps = map Num rs"
  proof (induction ps)
    case Nil
    then show ?case by simp
  next
    case (Cons p ps)
    then obtain rs a where "ps = map Num rs" "p = Num a"
      by (auto simp: finite_num_iff)
    then have "p # ps = map Num (a # rs)" by simp
    then show ?case by (rule exI)
  qed
next
  assume "\<exists>rs. ps = map Num rs"
  then show "\<forall>p\<in>set ps. finite_num p" by (auto simp: finite_num_def)
qed

lemma predictLinearRegression_finite:
  assumes "10 \<le> length rs" and "1 \<le> d"
  shows "\<exists>sl ic sd. 0 \<le> sd \<and>
     predictLinearRegression tza today (map Num rs) (Some d) =
       Inr (map (lr_prediction tza today (Num sl) (Num ic) (Num sd) (Num (last rs))
                   (windowSize (length rs)) d) [1..d])"
proof -
  let ?w = "windowSize (length rs)"
  let ?recent = "slice_last ?w rs"
  have w: "3 \<le> ?w" "?w \<le> length rs"
    using windowSize_bounds [OF assms(1)] by simp_all
  have len: "length ?recent = ?w"
    using w by (intro length_slice_last) simp_all
  have ne: "?recent \<noteq> []" using len w by auto
  have two: "2 \<le> length ?recent" using len w by simp
  obtain sl where sl: "ols_slope (map Num ?recent) = Num sl"
    using ols_slope_finite [OF two] by (auto simp: finite_num_iff)
  obtain ic where ic: "ols_intercept (map Num ?recent) = Num ic"
    using ols_intercept_finite [OF two] by (auto simp: finite_num_iff)
  let ?init = "\<lparr> sumX = Num 0, sumY = Num 0, sumXY = Num 0, sumX2 = Num 0 \<rparr>"
  have y: "sumY (sums_loop 0 (map Num ?recent) ?init) = Num (sum_list ?recent)"
    using sums_loop_sumY [of ?init 0 0 ?recent] by simp
  obtain sd where sd: "stdDev_of (Num (sum_list ?recent)) (map Num ?recent) = Num sd" "0 \<le> sd"
    using stdDev_of_finite [OF ne] by blast
  have "rs \<noteq> []" using assms(1) by auto
  then have last: "elem_at (map Num rs) (length rs - Suc 0) = Num (last rs)"
    by (simp add: elem_at_def last_conv_nth)
  have "predictLinearRegression tza today (map Num rs) (Some d) =
       Inr (map (lr_prediction tza today (Num sl) (Num ic) (Num sd) (Num (last rs)) ?w d) [1..d])"
    using assms(1)
    by (simp add: predictLinearRegression_def Let_def slice_last_map sl ic y sd last len lr_loop_eq)
  with sd(2) show ?thesis by blast
qed

lemma iso_date_fixed_zone:
  assumes "\<forall>t b. tza t b = offset"
  shows "iso_date (setDate_plus tza today i) = iso_date today + i"
proof -
  have "setDate_plus tza today i = today + i * msPerDay"
    using assms by (simp add: setDate_plus_def UTC_def LocalTime_def)
  then show ?thesis by (simp add: iso_date_def msPerDay_def)
qed

lemma predictLinearRegression_shape:
  assumes "10 \<le> length historicalPrices"
  shows "\<exists>sl ic sd n.
           predictLinearRegression tza today historicalPrices (Some d) =
             Inr (map (lr_prediction tza today sl ic sd
                         (elem_at historicalPrices (length historicalPrices - 1)) n d) [1..d])"
proof -
  let ?recent = "slice_last (windowSize (length historicalPrices)) historicalPrices"
  let ?s = "sums_loop 0 ?recent \<lparr> sumX = Num 0, sumY = Num 0, sumXY = Num 0, sumX2 = Num 0 \<rparr>"
  have "predictLinearRegression tza today historicalPrices (Some d) =
          Inr (map (lr_prediction tza today (ols_slope ?recent) (ols_intercept ?recent)
                      (stdDev_of (sumY ?s) ?recent)
                      (elem_at historicalPrices (length historicalPrices - 1))
                      (length ?recent) d) [1..d])"
    using assms by (simp add: predictLinearRegression_def Let_def lr_loop_eq)
  then show ?thesis by blast
qed

lemma lr_prediction_PInf:
  "predicted_price (lr_prediction tza today sl ic sd PInf n d i) = NaN"
  by (simp add: lr_prediction_def Let_def clamp_around_def sub_def inf_of_sign_def)

text \<open>
  Claim C1, as the code has it. The claim fails as stated: on ten prices
  \<open>Infinity\<close>, which are \<open>\<ge> 0\<close>, the predicted price is \<open>NaN\<close>; and in a time zone
  with daylight saving (here: one hour ahead of UTC, two hours from 01:00 UTC of the
  day after the epoch), at 00:30 UTC of the day of the epoch, the first two target
  dates are the same.
\<close>

theorem predictLinearRegression_counterexample:
  "map predicted_price
     (projr (predictLinearRegression (\<lambda>t b. 0) 0 (replicate 10 PInf) (Some 1))) = [NaN] \<and>
   map date
     (projr (predictLinearRegression
        (\<lambda>t isUTC. if t < (if isUTC then 90000000 else 97200000) then 3600000 else 7200000)
        1800000 (replicate 10 (Num 1)) (Some 2))) = [1, 1]"
proof -
  have n: "10 \<le> length (replicate 10 PInf)" "10 \<le> length (replicate 10 (Num 1))" by simp_all
  obtain sl ic sd n where
    "predictLinearRegression (\<lambda>t b. 0) 0 (replicate 10 PInf) (Some 1) =
       Inr (map (lr_prediction (\<lambda>t b. 0) 0 sl ic sd
              (elem_at (replicate 10 PInf) (length (replicate 10 PInf) - 1)) n 1) [1..1])"
    using predictLinearRegression_shape [OF n(1)] by blast
  then have a: "map predicted_price
     (projr (predictLinearRegression (\<lambda>t b. 0) 0 (replicate 10 PInf) (Some 1))) = [NaN]"
    by (simp add: elem_at_def lr_prediction_PInf upto_rec1 [of 1 1])
  let ?z = "\<lambda>(t::int) isUTC. if t < (if isUTC then 90000000 else 97200000) then 3600000 else (7200000::int)"
  obtain sl' ic' sd' n' where
    "predictLinearRegression ?z 1800000 (replicate 10 (Num 1)) (Some 2) =
       Inr (map (lr_prediction ?z 1800000 sl' ic' sd'
              (elem_at (replicate 10 (Num 1)) (length (replicate 10 (Num 1)) - 1)) n' 2) [1..2])"
    using predictLinearRegression_shape [OF n(2)] by blast
  then have b: "map date
     (projr (predictLinearRegression ?z 1800000 (replicate 10 (Num 1)) (Some 2))) = [1, 1]"
    by (simp add: lr_prediction_def Let_def upto_rec1 [of 1 2] upto_rec1 [of 2 2]
          iso_date_def setDate_plus_def UTC_def LocalTime_def msPerDay_def)
  from a b show ?thesis by blast
qed

text \<open>
  Claim C1, amended. For a series of at least ten prices that are finite, \<open>\<ge> 0\<close> and
  at most \<open>10^100\<close>, a horizon \<open>d\<close> from 1 to 90 and a local time zone whose offset from
  UTC is fixed, \<open>predictLinearRegression\<close> does not throw and returns exactly \<open>d\<close>
  predictions; the prediction at index \<open>k\<close> (day \<open>k + 1\<close>) has the UTC date of today
  plus \<open>k + 1\<close> days, so the dates increase strictly; and every prediction has
  \<open>predicted_price \<ge> 0\<close> and \<open>confidence_lower \<le> predicted_price \<le> confidence_upper\<close>.
\<close>

theorem predictLinearRegression_predictions:
  assumes "10 \<le> length historicalPrices"
    and "\<forall>p\<in>set historicalPrices. finite_num p \<and> le_num (Num 0) p \<and> le_num p (Num (10 ^ 100))"
    and "1 \<le> d" and "d \<le> 90"
    and "\<forall>t b. tza t b = offset"
  shows "\<exists>ps. predictLinearRegression tza today historicalPrices (Some d) = Inr ps \<and>
           int (length ps) = d \<and>
           (\<forall>k<length ps.
              date (ps ! k) = iso_date today + (int k + 1) \<and>
              le_num (Num 0) (predicted_price (ps ! k)) \<and>
              le_num (confidence_lower (ps ! k)) (predicted_price (ps ! k)) \<and>
              le_num (predicted_price (ps ! k)) (confidence_upper (ps ! k))) \<and>
           sorted_wrt (<) (map date ps)"
proof -
  have fin: "\<forall>p\<in>set historicalPrices. finite_num p" using assms(2) by blast
  obtain rs where rs: "historicalPrices = map Num rs"
    using fin finite_list_conv [of historicalPrices] by blast
  have n: "10 \<le> length rs" using assms(1) rs by simp
  have "rs \<noteq> []" using n by auto
  then have "Num (last rs) \<in> set historicalPrices"
    unfolding rs by simp
  then have "le_num (Num 0) (Num (last rs))"
    using assms(2) by blast
  then have l: "0 \<le> last rs" by simp
  obtain sl ic sd where sd: "0 \<le> sd"
    and eq: "predictLinearRegression tza today historicalPrices (Some d) =
       Inr (map (lr_prediction tza today (Num sl) (Num ic) (Num sd) (Num (last rs))
                   (windowSize (length rs)) d) [1..d])"
    using predictLinearRegression_finite [OF n assms(3)] unfolding rs by blast
  let ?f = "lr_prediction tza today (Num sl) (Num ic) (Num sd) (Num (last rs))
                   (windowSize (length rs)) d"
  let ?ps = "map ?f [1..d]"
  have len: "int (length ?ps) = d" using assms(3) by simp
  have nth: "?ps ! k = ?f (1 + int k)" if "k < length ?ps" for k
    using that by (simp add: nth_upto)
  have each: "date (?ps ! k) = iso_date today + (int k + 1) \<and>
              le_num (Num 0) (predicted_price (?ps ! k)) \<and>
              le_num (confidence_lower (?ps ! k)) (predicted_price (?ps ! k)) \<and>
              le_num (predicted_price (?ps ! k)) (confidence_upper (?ps ! k))"
    if k: "k < length ?ps" for k
    unfolding nth [OF k]
    using lr_prediction_props(1-4) [OF sd l _ assms(3), of "1 + int k" tza today sl ic "windowSize (length rs)"]
      iso_date_fixed_zone [OF assms(5), of today "1 + int k"]
    by (simp add: add.commute)
  have "sorted_wrt (<) (map date ?ps)"
    unfolding sorted_wrt_iff_nth_less
  proof (intro allI impI)
    fix i j assume ij: "i < j" "j < length (map date ?ps)"
    then have i: "i < length ?ps" and j: "j < length ?ps" by simp_all
    have "date (?ps ! i) = iso_date today + (int i + 1)" "date (?ps ! j) = iso_date today + (int j + 1)"
      using each [OF i] each [OF j] by blast+
    then show "map date ?ps ! i < map date ?ps ! j"
      using nth_map [OF i, of date] nth_map [OF j, of date] ij(1) by linarith
  qed
  with eq len each show ?thesis by blast
qed

theorem predictLinearRegression_predictions_witness:
  "\<exists>ps. predictLinearRegression (\<lambda>t b. 3600000) 1800000
           (map Num [10, 11, 12, 11, 13, 12, 14, 13, 15, 14]) (Some 2) = Inr ps \<and>
         int (length ps) = 2 \<and>
         (\<forall>k<length ps.
            date (ps ! k) = iso_date 1800000 + (int k + 1) \<and>
            le_num (Num 0) (predicted_price (ps ! k)) \<and>
            le_num (confidence_lower (ps ! k)) (predicted_price (ps ! k)) \<and>
            le_num (predicted_price (ps ! k)) (confidence_upper (ps ! k))) \<and>
         sorted_wrt (<) (map date ps)"
proof -
  have h1: "10 \<le> length (map Num [10, 11, 12, 11, 13, 12, 14, 13, 15, 14])"
    by simp
  have h2: "\<forall>p\<in>set (map Num [10, 11, 12, 11, 13, 12, 14, 13, 15, 14]).
              finite_num p \<and> le_num (Num 0) p \<and> le_num p (Num (10 ^ 100))"
    by (simp add: finite_num_def)
  have h3: "(1::int) \<le> 2" "(2::int) \<le> 90" by simp_all
  have h4: "\<forall>t b. (\<lambda>(t::int) (b::bool). 3600000::int) t b = 3600000" by simp
  show ?thesis by (rule predictLinearRegression_predictions [OF h1 h2 h3 h4])
qed

text \<open>
  Claim C7. For a fixed \<open>stdDev > 0\<close> and a fixed horizon \<open>d\<close>, the half-width
  \<open>stdDev * (1 + (i / d) * 0.5) * 1.96\<close> of the trend model's confidence band does not
  decrease as the day \<open>i\<close> goes from 1 to \<open>d\<close>.
\<close>

theorem lr_confidenceRange_monotone:
  assumes "0 < s" and "1 \<le> i" and "i \<le> j" and "j \<le> d"
  shows "le_num (lr_confidenceRange (Num s) i d) (lr_confidenceRange (Num s) j d)"
proof -
  have d: "0 < d" "d \<noteq> 0" using assms by simp_all
  have "real_of_int i / real_of_int d \<le> real_of_int j / real_of_int d"
    using assms(3) d(1) by (simp add: divide_right_mono)
  then have "1 + real_of_int i / real_of_int d * 0.5 \<le> 1 + real_of_int j / real_of_int d * 0.5"
    by simp
  then have "s * (1 + real_of_int i / real_of_int d * 0.5) \<le> s * (1 + real_of_int j / real_of_int d * 0.5)"
    using assms(1) by (simp only: mult_le_cancel_left_pos)
  then have "s * (1 + real_of_int i / real_of_int d * 0.5) * 1.96
             \<le> s * (1 + real_of_int j / real_of_int d * 0.5) * 1.96"
    by simp
  then show ?thesis
    unfolding lr_confidenceRange_Num [OF d(2)] by simp
qed

theorem lr_confidenceRange_monotone_witness:
  "le_num (lr_confidenceRange (Num 2) 3 30) (lr_confidenceRange (Num 2) 4 30)"
proof -
  have "(0::real) < 2" "(1::int) \<le> 3" "(3::int) \<le> 4" "(4::int) \<le> 30" by simp_all
  then show ?thesis by (rule lr_confidenceRange_monotone)
qed

text \<open>
  Claim C8. For a series of length \<open>n \<ge> 10\<close>, whatever its prices, the window size
  \<open>min(30, floor(n / 3))\<close> is at least 3, the fitting window has that many prices,
  and the denominator \<open>window * sumX2 - sumX * sumX\<close> of the slope is a finite
  number other than zero: the slope is never a division by zero.
\<close>

theorem ols_denominator_nonzero:
  assumes "10 \<le> length historicalPrices"
  shows "3 \<le> windowSize (length historicalPrices) \<and>
         length (slice_last (windowSize (length historicalPrices)) historicalPrices)
           = windowSize (length historicalPrices) \<and>
         (\<exists>r. ols_denominator (slice_last (windowSize (length historicalPrices)) historicalPrices)
                = Num r \<and> r \<noteq> 0)"
proof -
  let ?w = "windowSize (length historicalPrices)"
  have w: "3 \<le> ?w" "?w \<le> length historicalPrices"
    using windowSize_bounds [OF assms] by simp_all
  have len: "length (slice_last ?w historicalPrices) = ?w"
    using w by (intro length_slice_last) simp_all
  have "1 < real ?w" using w(1) by simp
  then have "1 < (real ?w)\<^sup>2" by (intro one_less_power) simp_all
  moreover have "real ?w \<noteq> 0" using w(1) by simp
  ultimately have nz: "(real ?w)\<^sup>2 * ((real ?w)\<^sup>2 - 1) / 12 \<noteq> 0" by simp
  have "ols_denominator (slice_last ?w historicalPrices)
          = Num ((real ?w)\<^sup>2 * ((real ?w)\<^sup>2 - 1) / 12)"
    unfolding ols_denominator_eq len by (rule refl)
  with nz w(1) len show ?thesis by blast
qed

theorem ols_denominator_nonzero_witness:
  "3 \<le> windowSize (length (replicate 10 NaN)) \<and>
   length (slice_last (windowSize (length (replicate 10 NaN))) (replicate 10 NaN))
      = windowSize (length (replicate 10 NaN)) \<and>
   (\<exists>r. ols_denominator (slice_last (windowSize (length (replicate 10 NaN))) (replicate 10 NaN))
          = Num r \<and> r \<noteq> 0)"
proof -
  have "10 \<le> length (replicate 10 NaN)" by simp
  then show ?thesis by (rule ols_denominator_nonzero)
qed

section \<open>Properties of the normalizer\<close>

lemma foldl_min_num: "foldl min_num (Num a) (map Num rs) = Num (foldl min a rs)"
  by (induction rs arbitrary: a) simp_all

lemma foldl_max_num: "foldl max_num (Num a) (map Num rs) = Num (foldl max a rs)"
  by (induction rs arbitrary: a) simp_all

lemma foldl_min_le: "foldl min (a::real) rs \<le> a \<and> (\<forall>r\<in>set rs. foldl min a rs \<le> r)"
proof (induction rs arbitrary: a)
  case Nil
  then show ?case by simp
next
  case (Cons r rs)
  from Cons.IH [of "min a r"] show ?case by auto
qed

lemma foldl_max_ge: "a \<le> foldl max (a::real) rs \<and> (\<forall>r\<in>set rs. r \<le> foldl max a rs)"
proof (induction rs arbitrary: a)
  case Nil
  then show ?case by simp
next
  case (Cons r rs)
  from Cons.IH [of "max a r"] show ?case by auto
qed

lemma foldl_min_mem: "foldl min (a::real) rs \<in> set (a # rs)"
proof (induction rs arbitrary: a)
  case Nil
  then show ?case by simp
next
  case (Cons r rs)
  from Cons.IH [of "min a r"] show ?case by (auto simp: min_def split: if_splits)
qed

lemma foldl_max_mem: "foldl max (a::real) rs \<in> set (a # rs)"
proof (induction rs arbitrary: a)
  case Nil
  then show ?case by simp
next
  case (Cons r rs)
  from Cons.IH [of "max a r"] show ?case by (auto simp: max_def split: if_splits)
qed

lemma Math_min_finite: "Math_min (map Num (r # rs)) = Num (foldl min r rs)"
  by (simp add: Math_min_def foldl_min_num)

lemma Math_max_finite: "Math_max (map Num (r # rs)) = Num (foldl max r rs)"
  by (simp add: Math_max_def foldl_max_num)

lemma normalizeData_finite:
  "normalizeData (map Num (r # rs)) =
     \<lparr> normalized = map (\<lambda>v. divide_num (Num (v - foldl min r rs))
                                (Num (foldl max r rs - foldl min r rs))) (r # rs),
       nmin = Num (foldl min r rs), nmax = Num (foldl max r rs) \<rparr>"
  unfolding normalizeData_def Let_def Math_min_finite Math_max_finite
  by (simp add: comp_def)

lemma normalizeData_replicate:
  "normalizeData (replicate (Suc n) (Num c)) =
     \<lparr> normalized = replicate (Suc n) NaN, nmin = Num c, nmax = Num c \<rparr>"
proof -
  have mn: "foldl min_num (Num c) (replicate n (Num c)) = Num c" by (induction n) simp_all
  have mx: "foldl max_num (Num c) (replicate n (Num c)) = Num c" by (induction n) simp_all
  show ?thesis
    unfolding normalizeData_def Let_def
    by (simp add: Math_min_def Math_max_def mn mx inf_of_sign_def)
qed

text \<open>
  Claim C3, which the code does not meet. On a constant series, of any length
  \<open>n + 1\<close> and any finite value \<open>c\<close>, \<open>normalizeData\<close> returns, without throwing,
  \<open>NaN\<close> for every point (each is \<open>0 / 0\<close>) and not a neutral value such as
  \<open>0.5\<close>; the bounds it returns are both \<open>c\<close>.
\<close>

theorem normalizeData_constant_series:
  "normalizeData (replicate (Suc n) (Num c)) =
     \<lparr> normalized = replicate (Suc n) NaN, nmin = Num c, nmax = Num c \<rparr>"
  by (rule normalizeData_replicate)

text \<open>
  In exact arithmetic, for a series of finite prices that is not constant,
  \<open>denormalize\<close> with the bounds that \<open>normalizeData\<close> returns takes the normalized
  value at an index back to the price at that index.
\<close>

lemma denormalize_normalizeData:
  assumes "\<forall>p\<in>set series. finite_num p"
    and "\<exists>a\<in>set series. \<exists>b\<in>set series. a \<noteq> b"
    and "i < length series"
  shows "denormalize (normalized (normalizeData series) ! i)
           (nmin (normalizeData series)) (nmax (normalizeData series)) = series ! i"
proof -
  obtain xs where xs: "series = map Num xs"
    using assms(1) finite_list_conv [of series] by blast
  with assms(3) obtain r rs where rs: "xs = r # rs" by (cases xs) auto
  let ?m = "foldl min r rs" and ?M = "foldl max r rs"
  have lo: "\<forall>x\<in>set xs. ?m \<le> x" using foldl_min_le [of r rs] rs by simp
  have hi: "\<forall>x\<in>set xs. x \<le> ?M" using foldl_max_ge [of r rs] rs by simp
  obtain a b where ab: "a \<in> set xs" "b \<in> set xs" "a \<noteq> b"
    using assms(2) xs by auto
  have "?M \<noteq> ?m"
  proof
    assume "?M = ?m"
    then have "a = ?m" "b = ?m" using lo hi ab(1,2) by (force intro: antisym)+
    with ab(3) show False by simp
  qed
  then have ne: "?M - ?m \<noteq> 0" by simp
  have i: "i < length xs" using assms(3) xs by simp
  show ?thesis
    unfolding xs rs normalizeData_finite
    using i rs ne by (simp add: denormalize_def nth_Cons split: nat.split)
qed

lemma denormalize_normalizeData_example:
  "denormalize (normalized (normalizeData [Num 1, Num 2, Num 4]) ! 1)
     (nmin (normalizeData [Num 1, Num 2, Num 4])) (nmax (normalizeData [Num 1, Num 2, Num 4]))
   = Num 2"
proof -
  have h1: "\<forall>p\<in>set [Num 1, Num 2, Num 4]. finite_num p" by (simp add: finite_num_def)
  have "Num 1 \<in> set [Num 1, Num 2, Num 4]" "Num 2 \<in> set [Num 1, Num 2, Num 4]" "Num 1 \<noteq> Num 2"
    by simp_all
  then have h2: "\<exists>a\<in>set [Num 1, Num 2, Num 4]. \<exists>b\<in>set [Num 1, Num 2, Num 4]. a \<noteq> b"
    by blast
  have h3: "1 < length [Num 1, Num 2, Num 4]" by simp
  from denormalize_normalizeData [OF h1 h2 h3] show ?thesis by simp
qed

section \<open>Training changes the readout weights only\<close>

lemma length_set_at: "length (set_at xs j v) = max (length xs) (Suc j)"
  by (simp add: set_at_def)

lemma nth_set_at_same: "set_at xs j v ! j = v"
  by (simp add: set_at_def nth_append)

lemma nth_set_at_other: "i \<noteq> j \<Longrightarrow> i < length xs \<Longrightarrow> set_at xs j v ! i = xs ! i"
  by (simp add: set_at_def nth_append)

lemma update_outputWeights_Suc:
  "update_outputWeights lr err h (Suc m) ow =
     (let ws = update_outputWeights lr err h m ow
      in set_at ws m (add (elem_at ws m) (mul (mul lr err) (elem_at h m))))"
  by (simp add: update_outputWeights_def Let_def)

lemma update_outputWeights_inv:
  "length (update_outputWeights lr err h m ow) = max (length ow) m \<and>
   (\<forall>j<length ow.
      update_outputWeights lr err h m ow ! j =
        (if j < m then add (ow ! j) (mul (mul lr err) (elem_at h j)) else ow ! j))"
proof (induction m)
  case 0
  show ?case by (simp add: update_outputWeights_def)
next
  case (Suc m)
  let ?ws = "update_outputWeights lr err h m ow"
  let ?v = "add (elem_at ?ws m) (mul (mul lr err) (elem_at h m))"
  have len: "length ?ws = max (length ow) m" using Suc.IH by blast
  have old: "?ws ! j = (if j < m then add (ow ! j) (mul (mul lr err) (elem_at h j)) else ow ! j)"
    if "j < length ow" for j using Suc.IH that by blast
  have eq: "update_outputWeights lr err h (Suc m) ow = set_at ?ws m ?v"
    by (simp add: update_outputWeights_Suc Let_def)
  have "length (set_at ?ws m ?v) = max (length ow) (Suc m)"
    using len by (simp add: length_set_at)
  moreover have "set_at ?ws m ?v ! j =
        (if j < Suc m then add (ow ! j) (mul (mul lr err) (elem_at h j)) else ow ! j)"
    if j: "j < length ow" for j
  proof (cases "j = m")
    case True
    then have "elem_at ?ws m = ow ! m" using j len old [OF j] by (simp add: elem_at_def)
    then show ?thesis using True by (simp add: nth_set_at_same)
  next
    case False
    then have "set_at ?ws m ?v ! j = ?ws ! j"
      using j len by (intro nth_set_at_other) simp_all
    then show ?thesis using False old [OF j] by auto
  qed
  ultimately show ?case unfolding eq by blast
qed

lemma train_epoch_frame:
  "train_epoch lstm h c data = lstm \<lparr> outputWeights := outputWeights (train_epoch lstm h c data) \<rparr>"
proof (induction lstm h c data rule: train_epoch.induct)
  case (1 lstm h c x y rest)
  obtain h' c' where f: "forward (cell lstm) x h c = (h', c')" by (cases "forward (cell lstm) x h c")
  let ?lstm' = "lstm \<lparr> outputWeights :=
                    update_outputWeights (Num 0.001) (sub y (readout h' (outputWeights lstm))) h'
                      (hiddenSize lstm) (outputWeights lstm) \<rparr>"
  have step: "train_epoch lstm h c (x # y # rest) = train_epoch ?lstm' h' c' (y # rest)"
    by (simp add: f Let_def)
  have "train_epoch ?lstm' h' c' (y # rest) =
          ?lstm' \<lparr> outputWeights := outputWeights (train_epoch ?lstm' h' c' (y # rest)) \<rparr>"
    using "1.IH" [OF f [symmetric] refl refl refl refl] .
  then show ?case unfolding step by simp
qed simp_all

lemma train_frame:
  "train lstm data epochs = lstm \<lparr> outputWeights := outputWeights (train lstm data epochs) \<rparr>"
proof (induction epochs arbitrary: lstm)
  case 0
  show ?case by simp
next
  case (Suc epochs)
  let ?l1 = "train_epoch lstm (replicate (hiddenSize lstm) (Num 0))
               (replicate (hiddenSize lstm) (Num 0)) data"
  have a: "?l1 = lstm \<lparr> outputWeights := outputWeights ?l1 \<rparr>"
    by (rule train_epoch_frame)
  have b: "train ?l1 data epochs = ?l1 \<lparr> outputWeights := outputWeights (train ?l1 data epochs) \<rparr>"
    by (rule Suc.IH)
  have "train lstm data (Suc epochs) = train ?l1 data epochs" by simp
  then show ?case using a b by (metis SimpleLSTM.update_convs(3) SimpleLSTM.surjective SimpleLSTM.select_convs)
qed




section \<open>The recurrent forecaster on a constant series\<close>

lemma add_NaN_right [simp]: "add x NaN = NaN"
  by (cases x) simp_all

lemma mul_NaN_right [simp]: "mul x NaN = NaN"
  by (cases x) simp_all

lemma sub_NaN_left [simp]: "sub NaN y = NaN"
  by (simp add: sub_def)

lemma max_num_NaN_right [simp]: "max_num x NaN = NaN"
  by (cases x) simp_all

lemma min_num_NaN_right [simp]: "min_num x NaN = NaN"
  by (cases x) simp_all

lemma sigmoid_NaN [simp]: "sigmoid NaN = NaN"
  by (simp add: sigmoid_def)

lemma elem_at_replicate_NaN [simp]: "elem_at (replicate k NaN) i = NaN"
  by (simp add: elem_at_def)

lemma map_constant: "(\<And>z. z \<in> set zs \<Longrightarrow> f z = v) \<Longrightarrow> map f zs = replicate (length zs) v"
  by (induction zs) simp_all

lemma row_sum_NaN_acc [simp]: "row_sum ws xs NaN = NaN"
  by (induction ws xs NaN rule: row_sum.induct) simp_all

lemma row_sum_NaN_head [simp]: "row_sum ws (NaN # xs) acc = NaN"
  by (cases ws) simp_all

lemma matMul_NaN: "matMul weights (NaN # h) = replicate (length weights) NaN"
  unfolding matMul_def by (rule map_constant) simp

lemma map2_constant:
  "map (\<lambda>(a, b). v) (zip xs ys) = replicate (min (length xs) (length ys)) v"
  using map_constant [of "zip xs ys" "\<lambda>(a, b). v" v] by (simp add: split_def)

lemma forward_NaN: "forward cl NaN h c = (replicate (length c) NaN, replicate (length c) NaN)"
  by (simp add: forward_def Let_def matMul_NaN map2_constant)

lemma readout_fold_NaN:
  "foldl (\<lambda>acc (val, idx). add acc (mul val (elem_at ow idx))) NaN zs = NaN"
  by (induction zs) (simp_all add: split_def)

lemma readout_NaN: "0 < n \<Longrightarrow> readout (replicate n NaN) ow = NaN"
proof -
  assume "0 < n"
  then obtain m where n: "n = Suc m" by (cases n) auto
  have "zip (replicate (Suc m) NaN) [0..<Suc m] = (NaN, 0) # zip (replicate m NaN) [Suc 0..<Suc m]"
    by (simp add: upt_rec [of 0] del: upt_Suc)
  then show ?thesis
    unfolding readout_def n by (simp add: readout_fold_NaN del: upt_Suc replicate_Suc)
qed

lemma predict_loop_NaN:
  "0 < length c \<Longrightarrow> predict_loop lstm m NaN h c acc = acc @ replicate m NaN"
proof (induction m arbitrary: h c acc)
  case 0
  show ?case by simp
next
  case (Suc m)
  have "predict_loop lstm (Suc m) NaN h c acc =
          predict_loop lstm m NaN (replicate (length c) NaN) (replicate (length c) NaN) (acc @ [NaN])"
    using Suc.prems by (simp add: forward_NaN readout_NaN)
  also have "\<dots> = (acc @ [NaN]) @ replicate m NaN"
    using Suc.prems by (intro Suc.IH) simp
  finally show ?case by (simp add: replicate_app_Cons_same)
qed

lemma warmup_NaN:
  "foldl (\<lambda>(h, c) val. forward cl val h c) (h, c) (replicate (Suc m) NaN) =
     (replicate (length c) NaN, replicate (length c) NaN)"
proof (induction m arbitrary: h c)
  case 0
  show ?case by (simp add: forward_NaN)
next
  case (Suc m)
  have "foldl (\<lambda>(h, c) val. forward cl val h c) (h, c) (replicate (Suc (Suc m)) NaN) =
        foldl (\<lambda>(h, c) val. forward cl val h c)
          (replicate (length c) NaN, replicate (length c) NaN) (replicate (Suc m) NaN)"
    by (simp add: forward_NaN)
  then show ?case using Suc.IH [of "replicate (length c) NaN" "replicate (length c) NaN"] by simp
qed

lemma predict_NaN:
  assumes "0 < hiddenSize lstm"
  shows "predict lstm (replicate (Suc m) NaN) steps = replicate (iterations steps) NaN"
proof -
  have "elem_at (replicate (Suc m) NaN) (length (replicate (Suc m) NaN) - 1) = NaN"
    by (rule elem_at_replicate_NaN)
  then show ?thesis
    unfolding predict_def Let_def warmup_NaN
    using assms by (simp add: predict_loop_NaN del: replicate_Suc)
qed

lemma hiddenSize_new_SimpleLSTM: "hiddenSize (fst (new_SimpleLSTM rnd hidden k)) = hidden"
  by (simp add: new_SimpleLSTM_def Let_def split_def)

lemma hiddenSize_train: "hiddenSize (train lstm data epochs) = hiddenSize lstm"
  using train_frame [of lstm data epochs]
  by (metis SimpleLSTM.select_convs(2) SimpleLSTM.surjective SimpleLSTM.update_convs(3))

lemma denormalize_NaN [simp]: "denormalize NaN mn mx = NaN"
  by (simp add: denormalize_def)

lemma lstm_prediction_NaN:
  "lstm_prediction tza t sd l (replicate n NaN) d i =
     \<lparr> date = iso_date (setDate_plus tza t (int i + 1)), predicted_price = NaN,
       confidence_lower = NaN, confidence_upper = NaN \<rparr>"
  by (simp add: lstm_prediction_def Let_def clamp_around_def)

text \<open>
  Claim C6, which the code does not meet in its recurrent part. On a constant series
  of \<open>60 + m\<close> prices, all equal to a finite \<open>c\<close> (so also when \<open>c \<ge> 0\<close>), and for
  every horizon \<open>k + 1\<close> and every random initialisation, \<open>predictLSTM\<close> returns
  predictions whose \<open>predicted_price\<close> and bounds are all \<open>NaN\<close>: none lies within
  20% of the last price. The \<open>NaN\<close> comes from \<open>normalizeData\<close> on the constant series.
\<close>

theorem predictLSTM_constant_series:
  "predictLSTM tza t rnd (replicate (60 + m) (Num c)) (Some (int (Suc k))) =
     Inr (map (\<lambda>i. \<lparr> date = iso_date (setDate_plus tza t (int i + 1)), predicted_price = NaN,
                        confidence_lower = NaN, confidence_upper = NaN \<rparr>) [0..<Suc k])"
proof -
  let ?prices = "replicate (60 + m) (Num c)"
  have nd: "normalizeData ?prices =
              \<lparr> normalized = replicate (60 + m) NaN, nmin = Num c, nmax = Num c \<rparr>"
    using normalizeData_replicate [of "59 + m" c] by simp
  let ?lstm = "train (fst (new_SimpleLSTM rnd 50 0)) (replicate (60 + m) NaN) 50"
  have hs: "0 < hiddenSize ?lstm"
    by (simp add: hiddenSize_train hiddenSize_new_SimpleLSTM)
  have s60: "replicate 60 NaN = replicate (Suc 59) NaN" by simp
  have sl: "slice_last (min 60 (60 + m)) (replicate (60 + m) NaN :: number list) = replicate 60 NaN"
    by (simp add: slice_last_def)
  have it: "iterations (Some (int (Suc k))) = Suc k" by (simp add: iterations_def)
  have pr: "predict ?lstm (replicate 60 NaN) (Some (int (Suc k))) = replicate (Suc k) NaN"
    unfolding s60 predict_NaN [OF hs] it by (rule refl)
  have dn: "map (\<lambda>val. denormalize val (Num c) (Num c)) (replicate (Suc k) NaN) = replicate (Suc k) NaN"
    by simp
  have n: "\<not> length ?prices < 60" by simp
  have nat: "nat (int (Suc k)) = Suc k" by simp
  show ?thesis
    unfolding predictLSTM_def Let_def nd
    apply (simp only: SimpleLSTM.simps normalized_data.simps length_replicate sl pr dn
          option.case nat)
    apply (simp add: lstm_prediction_NaN del: upt_Suc replicate_Suc)
    done
qed

section \<open>Properties of the handler\<close>

lemma serve_valid:
  assumes "http_method req \<noteq> ascii ''OPTIONS''"
    and "ticker_param req = Some tk" and "tk \<noteq> []"
    and "\<not> days_less (requested_days req) 1" and "\<not> days_greater (requested_days req) 90"
    and "dbError (stock_data env (toUpperCase (upper_case env) tk)) = None"
    and "historicalData (stock_data env (toUpperCase (upper_case env) tk)) = Some rows"
    and "10 \<le> length rows"
    and "predictLinearRegression (LocalTZA env) (clock env 0) (map close rows) (requested_days req) = Inr lr"
    and "try_lstm env (map close rows) (requested_days req) = (ls, le)"
  shows "fst (serve env req) =
     \<lparr> status = 200,
       body = Forecast
         \<lparr> ticker = toUpperCase (upper_case env) tk, prediction_days = requested_days req,
           models = [\<lparr> model = ''linear_regression'', predictions = lr \<rparr>]
                    @ (if length ls > 0 then [\<lparr> model = ''lstm'', predictions = ls \<rparr>] else []),
           lstm_error = le,
           disclaimer = ''These predictions are for educational purposes only and should not be used for actual trading decisions.'' \<rparr> \<rparr>"
proof -
  have tk: "requested_ticker env req = Some (toUpperCase (upper_case env) tk)" "toUpperCase (upper_case env) tk \<noteq> []"
    using assms(2,3) by (simp_all add: requested_ticker_def toUpperCase_def)
  show ?thesis
    unfolding serve_def Let_def tk
    using assms(1,4-10) tk(2) by simp
qed

lemma predictLinearRegression_total:
  "10 \<le> length prices \<Longrightarrow> \<exists>lr. predictLinearRegression tza t prices days = Inr lr"
  by (cases days) (simp_all add: predictLinearRegression_def Let_def)

lemma length_predictLSTM:
  "predictLSTM tza t rnd prices (Some d) = Inr ls \<Longrightarrow> length ls = nat d"
  by (auto simp: predictLSTM_def Let_def split: if_splits)

lemma predictLSTM_total:
  "60 \<le> length prices \<Longrightarrow> \<exists>ls. predictLSTM tza t rnd prices days = Inr ls"
  by (cases days) (simp_all add: predictLSTM_def Let_def)

text \<open>
  Claim C2. For a request that passes validation (a method other than \<open>OPTIONS\<close>, a
  ticker, days from 1 to 90) and whose ticker has at least ten stored prices: the
  trend model returns its predictions and the response is a success that holds them.
  When the series has fewer than 60 prices, or the recurrent model throws, the trend
  model is the only entry of the model list and the error note is not null. When the
  recurrent model returns too, the model list is the trend model first and the
  recurrent model second.
\<close>

theorem serve_isolates_lstm_failure:
  assumes "http_method req \<noteq> ascii ''OPTIONS''"
    and "ticker_param req = Some tk" and "tk \<noteq> []"
    and "requested_days req = Some d" and "1 \<le> d" and "d \<le> 90"
    and "dbError (stock_data env (toUpperCase (upper_case env) tk)) = None"
    and "historicalData (stock_data env (toUpperCase (upper_case env) tk)) = Some rows"
    and "10 \<le> length rows"
  shows "\<exists>lr f.
           predictLinearRegression (LocalTZA env) (clock env 0) (map close rows) (Some d) = Inr lr \<and>
           fst (serve env req) = \<lparr> status = 200, body = Forecast f \<rparr> \<and>
           ((length rows < 60 \<or>
             isl (predictLSTM (LocalTZA env) (clock env 1) (random env) (map close rows) (Some d)))
              \<longrightarrow> models f = [\<lparr> model = ''linear_regression'', predictions = lr \<rparr>] \<and>
                  lstm_error f \<noteq> None) \<and>
           (\<forall>ls. 60 \<le> length rows \<and>
                 predictLSTM (LocalTZA env) (clock env 1) (random env) (map close rows) (Some d) = Inr ls
              \<longrightarrow> models f = [\<lparr> model = ''linear_regression'', predictions = lr \<rparr>,
                              \<lparr> model = ''lstm'', predictions = ls \<rparr>])"
proof -
  let ?prices = "map close rows"
  have n: "10 \<le> length ?prices" using assms(9) by simp
  obtain lr where lr: "predictLinearRegression (LocalTZA env) (clock env 0) ?prices (Some d) = Inr lr"
    using predictLinearRegression_total [OF n] by blast
  obtain ls le where tl: "try_lstm env ?prices (Some d) = (ls, le)"
    by (cases "try_lstm env ?prices (Some d)")
  let ?f = "\<lparr> ticker = toUpperCase (upper_case env) tk, prediction_days = Some d,
           models = [\<lparr> model = ''linear_regression'', predictions = lr \<rparr>]
                    @ (if length ls > 0 then [\<lparr> model = ''lstm'', predictions = ls \<rparr>] else []),
           lstm_error = le,
           disclaimer = ''These predictions are for educational purposes only and should not be used for actual trading decisions.'' \<rparr>"
  have dl: "\<not> days_less (requested_days req) 1" "\<not> days_greater (requested_days req) 90"
    using assms(4-6) by (simp_all add: days_less_def days_greater_def)
  have resp: "fst (serve env req) = \<lparr> status = 200, body = Forecast ?f \<rparr>"
    using serve_valid [OF assms(1-3) dl assms(7-9), of lr ls le] lr tl
    unfolding assms(4) by simp
  have short: "models ?f = [\<lparr> model = ''linear_regression'', predictions = lr \<rparr>] \<and> lstm_error ?f \<noteq> None"
    if "length rows < 60 \<or> isl (predictLSTM (LocalTZA env) (clock env 1) (random env) ?prices (Some d))"
  proof (cases "length rows < 60")
    case True
    then show ?thesis using tl by (auto simp: try_lstm_def)
  next
    case False
    with that obtain e where "predictLSTM (LocalTZA env) (clock env 1) (random env) ?prices (Some d) = Inl e"
      by (auto simp: isl_def)
    then show ?thesis using tl False by (cases e) (auto simp: try_lstm_def)
  qed
  have both: "models ?f = [\<lparr> model = ''linear_regression'', predictions = lr \<rparr>,
                           \<lparr> model = ''lstm'', predictions = ls' \<rparr>]"
    if "60 \<le> length rows \<and>
        predictLSTM (LocalTZA env) (clock env 1) (random env) ?prices (Some d) = Inr ls'" for ls'
  proof -
    have "length ls' = nat d" using that length_predictLSTM by blast
    then have "0 < length ls'" using assms(5) by simp
    moreover have "ls = ls'" using that tl by (auto simp: try_lstm_def)
    ultimately show ?thesis by simp
  qed
  from lr resp short both show ?thesis by blast
qed

theorem serve_isolates_lstm_failure_witness:
  "\<exists>lr f.
     predictLinearRegression (\<lambda>t b. 0) 0
       (map close (replicate 10 \<lparr> close = Num 100, row_date = 0 \<rparr>)) (Some 5) = Inr lr \<and>
     fst (serve
       \<lparr> LocalTZA = (\<lambda>t b. 0), clock = (\<lambda>k. 0), random = (\<lambda>k. 0), upper_case = ascii_upper,
         stock_data = (\<lambda>tk. \<lparr> dbError = None,
                                historicalData = Some (replicate 10 \<lparr> close = Num 100, row_date = 0 \<rparr>) \<rparr>) \<rparr>
       \<lparr> http_method = ascii ''GET'', ticker_param = Some (ascii ''aapl''), days_param = Some (ascii ''5'') \<rparr>)
       = \<lparr> status = 200, body = Forecast f \<rparr> \<and>
     models f = [\<lparr> model = ''linear_regression'', predictions = lr \<rparr>] \<and>
     lstm_error f \<noteq> None"
proof -
  let ?env = "\<lparr> LocalTZA = (\<lambda>(t::int) (b::bool). 0 :: int), clock = (\<lambda>k :: nat. 0 :: int),
         random = (\<lambda>k :: nat. 0 :: real), upper_case = ascii_upper,
         stock_data = (\<lambda>tk :: js_string. \<lparr> dbError = None,
                                historicalData = Some (replicate 10 \<lparr> close = Num 100, row_date = 0 \<rparr>) \<rparr>) \<rparr>"
  let ?req = "\<lparr> http_method = ascii ''GET'', ticker_param = Some (ascii ''aapl''), days_param = Some (ascii ''5'') \<rparr>"
  let ?rows = "replicate 10 \<lparr> close = Num 100, row_date = 0 \<rparr>"
  have h1: "http_method ?req \<noteq> ascii ''OPTIONS''" by (simp add: ascii_def)
  have h2: "ticker_param ?req = Some (ascii ''aapl'')" by simp
  have h3: "ascii ''aapl'' \<noteq> []" by (simp add: ascii_def)
  have h4: "requested_days ?req = Some 5"
    by (simp add: requested_days_def parseInt_def is_space_def is_digit_def digit_value_def
          digits_value_def ascii_def)
  have h5: "(1::int) \<le> 5" "(5::int) \<le> 90" by simp_all
  have h6: "dbError (stock_data ?env (toUpperCase (upper_case ?env) (ascii ''aapl''))) = None" by simp
  have h7: "historicalData (stock_data ?env (toUpperCase (upper_case ?env) (ascii ''aapl''))) = Some ?rows" by simp
  have h8: "10 \<le> length ?rows" by simp
  have short: "length ?rows < 60" by simp
  from serve_isolates_lstm_failure [OF h1 h2 h3 h4 h5 h6 h7 h8] short
  show ?thesis by (simp del: map_replicate)
qed

text \<open>
  Claim C4, which the code does not meet. The request \<open>?ticker=AAPL&days=abc\<close>, for a
  ticker with ten stored prices, has a \<open>days\<close> parameter that is not within 1 to 90
  (\<open>parseInt\<close> makes \<open>NaN\<close> of it, and neither \<open>NaN < 1\<close> nor \<open>NaN > 90\<close> holds), yet
  the response is a success with status 200, no prediction and a horizon of \<open>NaN\<close>:
  the trend model was called.
\<close>

theorem serve_days_NaN:
  "fst (serve
     \<lparr> LocalTZA = (\<lambda>t b. 0), clock = (\<lambda>k. 0), random = (\<lambda>k. 0), upper_case = ascii_upper,
       stock_data = (\<lambda>tk. \<lparr> dbError = None,
                              historicalData = Some (replicate 10 \<lparr> close = Num 100, row_date = 0 \<rparr>) \<rparr>) \<rparr>
     \<lparr> http_method = ascii ''GET'', ticker_param = Some (ascii ''AAPL''), days_param = Some (ascii ''abc'') \<rparr>) =
   \<lparr> status = 200,
     body = Forecast
       \<lparr> ticker = ascii ''AAPL'', prediction_days = None,
         models = [\<lparr> model = ''linear_regression'', predictions = [] \<rparr>],
         lstm_error = Some ''Insufficient data for LSTM (requires 60+ days)'',
         disclaimer = ''These predictions are for educational purposes only and should not be used for actual trading decisions.'' \<rparr> \<rparr>"
proof -
  let ?env = "\<lparr> LocalTZA = (\<lambda>(t::int) (b::bool). 0 :: int), clock = (\<lambda>k :: nat. 0 :: int),
         random = (\<lambda>k :: nat. 0 :: real), upper_case = ascii_upper,
         stock_data = (\<lambda>tk :: js_string. \<lparr> dbError = None,
                                historicalData = Some (replicate 10 \<lparr> close = Num 100, row_date = 0 \<rparr>) \<rparr>) \<rparr>"
  let ?req = "\<lparr> http_method = ascii ''GET'', ticker_param = Some (ascii ''AAPL''), days_param = Some (ascii ''abc'') \<rparr>"
  have d: "requested_days ?req = None"
    by (simp add: requested_days_def parseInt_def is_space_def is_digit_def digit_value_def ascii_def)
  have t: "requested_ticker ?env ?req = Some (ascii ''AAPL'')"
    by (simp add: requested_ticker_def toUpperCase_def ascii_upper_def ascii_def)
  show ?thesis
    unfolding serve_def Let_def d t
    by (simp add: days_less_def days_greater_def predictLinearRegression_def try_lstm_def ascii_def)
qed

text \<open>
  What the check on \<open>days\<close> does reject: an integer below 1 or above 90.
\<close>

lemma serve_days_out_of_range:
  assumes "http_method req \<noteq> ascii ''OPTIONS''"
    and "ticker_param req = Some tk" and "tk \<noteq> []"
    and "requested_days req = Some d" and "d < 1 \<or> 90 < d"
  shows "serve env req = (\<lparr> status = 400, body = ErrorBody ''Days must be between 1 and 90'' \<rparr>, [])"
proof -
  have tk: "requested_ticker env req = Some (toUpperCase (upper_case env) tk)" "toUpperCase (upper_case env) tk \<noteq> []"
    using assms(2,3) by (simp_all add: requested_ticker_def toUpperCase_def)
  show ?thesis
    unfolding serve_def Let_def tk assms(4)
    using assms(1,5) tk(2) by (auto simp: days_less_def days_greater_def)
qed

lemma serve_cong:
  "http_method r1 = http_method r2 \<Longrightarrow> requested_ticker env r1 = requested_ticker env r2 \<Longrightarrow>
   requested_days r1 = requested_days r2 \<Longrightarrow> serve env r1 = serve env r2"
  by (simp add: serve_def)

text \<open>
  Claim C10. For a request without a \<open>days\<close> parameter the horizon is 30: the
  response is that of the same request with \<open>days=30\<close>, it is never the error about
  \<open>days\<close>, a forecast it holds has \<open>prediction_days = 30\<close>, and when the request is
  otherwise valid and its ticker has at least ten stored prices the response is a
  success holding a forecast for 30 days.
\<close>

theorem serve_default_days:
  assumes "days_param req = None"
  shows "requested_days req = Some 30 \<and>
         serve env req = serve env (req \<lparr> days_param := Some (ascii ''30'') \<rparr>) \<and>
         body (fst (serve env req)) \<noteq> ErrorBody ''Days must be between 1 and 90'' \<and>
         (\<forall>f. body (fst (serve env req)) = Forecast f \<longrightarrow> prediction_days f = Some 30) \<and>
         (\<forall>tk rows. http_method req \<noteq> ascii ''OPTIONS'' \<and> ticker_param req = Some tk \<and> tk \<noteq> [] \<and>
              dbError (stock_data env (toUpperCase (upper_case env) tk)) = None \<and>
              historicalData (stock_data env (toUpperCase (upper_case env) tk)) = Some rows \<and> 10 \<le> length rows
            \<longrightarrow> (\<exists>f. fst (serve env req) = \<lparr> status = 200, body = Forecast f \<rparr> \<and>
                     prediction_days f = Some 30))"
proof -
  have p30: "parseInt (ascii ''30'') = Some 30"
    by (simp add: parseInt_def is_space_def is_digit_def digit_value_def digits_value_def ascii_def)
  have d: "requested_days req = Some 30"
    using assms by (simp add: requested_days_def p30)
  have d': "requested_days (req \<lparr> days_param := Some (ascii ''30'') \<rparr>) = Some 30"
    by (simp add: requested_days_def p30)
  have same: "serve env req = serve env (req \<lparr> days_param := Some (ascii ''30'') \<rparr>)"
    by (rule serve_cong) (simp_all add: d d' requested_ticker_def)
  have dl: "\<not> days_less (requested_days req) 1" "\<not> days_greater (requested_days req) 90"
    unfolding d by (simp_all add: days_less_def days_greater_def)
  have no400: "body (fst (serve env req)) \<noteq> ErrorBody ''Days must be between 1 and 90''"
    unfolding serve_def Let_def d
    by (simp add: days_less_def days_greater_def split_def split: sum.split error.split)
  have fc: "prediction_days f = Some 30" if "body (fst (serve env req)) = Forecast f" for f
    using that unfolding serve_def Let_def d
    by (auto simp: days_less_def days_greater_def split_def split: sum.splits error.splits if_splits)
  have ok: "\<exists>f. fst (serve env req) = \<lparr> status = 200, body = Forecast f \<rparr> \<and> prediction_days f = Some 30"
    if h: "http_method req \<noteq> ascii ''OPTIONS'' \<and> ticker_param req = Some tk \<and> tk \<noteq> [] \<and>
              dbError (stock_data env (toUpperCase (upper_case env) tk)) = None \<and>
              historicalData (stock_data env (toUpperCase (upper_case env) tk)) = Some rows \<and> 10 \<le> length rows"
    for tk rows
  proof -
    have n: "10 \<le> length (map close rows)" using h by simp
    obtain lr where lr: "predictLinearRegression (LocalTZA env) (clock env 0) (map close rows) (requested_days req) = Inr lr"
      using predictLinearRegression_total [OF n] by blast
    obtain ls le where tl: "try_lstm env (map close rows) (requested_days req) = (ls, le)"
      by (cases "try_lstm env (map close rows) (requested_days req)")
    from h have h1: "http_method req \<noteq> ascii ''OPTIONS''" and h2: "ticker_param req = Some tk"
      and h3: "tk \<noteq> []" and h4: "dbError (stock_data env (toUpperCase (upper_case env) tk)) = None"
      and h5: "historicalData (stock_data env (toUpperCase (upper_case env) tk)) = Some rows" and h6: "10 \<le> length rows"
      by blast+
    show ?thesis
      using serve_valid [OF h1 h2 h3 dl h4 h5 h6 lr tl] d by simp
  qed
  from d same no400 fc ok show ?thesis by blast
qed

theorem serve_default_days_witness:
  "requested_days \<lparr> http_method = ascii ''GET'', ticker_param = Some (ascii ''aapl''), days_param = None \<rparr> = Some 30 \<and>
   (\<exists>f. fst (serve
       \<lparr> LocalTZA = (\<lambda>t b. 0), clock = (\<lambda>k. 0), random = (\<lambda>k. 0), upper_case = ascii_upper,
         stock_data = (\<lambda>tk. \<lparr> dbError = None,
                                historicalData = Some (replicate 10 \<lparr> close = Num 100, row_date = 0 \<rparr>) \<rparr>) \<rparr>
       \<lparr> http_method = ascii ''GET'', ticker_param = Some (ascii ''aapl''), days_param = None \<rparr>)
       = \<lparr> status = 200, body = Forecast f \<rparr> \<and> prediction_days f = Some 30)"
proof -
  let ?env = "\<lparr> LocalTZA = (\<lambda>(t::int) (b::bool). 0 :: int), clock = (\<lambda>k :: nat. 0 :: int),
         random = (\<lambda>k :: nat. 0 :: real), upper_case = ascii_upper,
         stock_data = (\<lambda>tk :: js_string. \<lparr> dbError = None,
                                historicalData = Some (replicate 10 \<lparr> close = Num 100, row_date = 0 \<rparr>) \<rparr>) \<rparr>"
  let ?req = "\<lparr> http_method = ascii ''GET'', ticker_param = Some (ascii ''aapl''), days_param = None \<rparr>"
  let ?rows = "replicate 10 \<lparr> close = Num 100, row_date = 0 \<rparr>"
  have h0: "days_param ?req = None" by simp
  have h: "http_method ?req \<noteq> ascii ''OPTIONS'' \<and> ticker_param ?req = Some (ascii ''aapl'') \<and> ascii ''aapl'' \<noteq> [] \<and>
              dbError (stock_data ?env (toUpperCase (upper_case ?env) (ascii ''aapl''))) = None \<and>
              historicalData (stock_data ?env (toUpperCase (upper_case ?env) (ascii ''aapl''))) = Some ?rows \<and> 10 \<le> length ?rows"
    by (simp add: ascii_def)
  from serve_default_days [OF h0, of ?env] h show ?thesis by blast
qed

section \<open>Bounds on the predicted prices\<close>

text \<open>
  The trend part of claim C6: on a series of at least ten finite prices \<open>\<ge> 0\<close>,
  every predicted price of the trend forecaster is within 15% of the last price.
\<close>

lemma predictLinearRegression_within_15_percent:
  assumes "10 \<le> length historicalPrices"
    and "\<forall>p\<in>set historicalPrices. finite_num p \<and> le_num (Num 0) p"
    and "1 \<le> d"
    and "predictLinearRegression tza t historicalPrices (Some d) = Inr ps"
    and "p \<in> set ps"
  shows "\<exists>l. elem_at historicalPrices (length historicalPrices - 1) = Num l \<and>
             le_num (Num (l - 0.15 * l)) (predicted_price p) \<and>
             le_num (predicted_price p) (Num (l + 0.15 * l))"
proof -
  obtain rs where rs: "historicalPrices = map Num rs"
    using assms(2) finite_list_conv [of historicalPrices] by blast
  have n: "10 \<le> length rs" using assms(1) rs by simp
  have ne: "rs \<noteq> []" using n by auto
  then have "Num (last rs) \<in> set historicalPrices"
    unfolding rs by simp
  then have "le_num (Num 0) (Num (last rs))"
    using assms(2) by blast
  then have l: "0 \<le> last rs" by simp
  have el: "elem_at historicalPrices (length historicalPrices - 1) = Num (last rs)"
    unfolding rs using ne by (simp add: elem_at_def last_conv_nth)
  obtain sl ic sd where sd: "0 \<le> sd"
    and eq: "predictLinearRegression tza t historicalPrices (Some d) =
       Inr (map (lr_prediction tza t (Num sl) (Num ic) (Num sd) (Num (last rs))
                   (windowSize (length rs)) d) [1..d])"
    using predictLinearRegression_finite [OF n assms(3)] unfolding rs by blast
  from eq assms(4,5) obtain i where i: "1 \<le> i"
    and p: "p = lr_prediction tza t (Num sl) (Num ic) (Num sd) (Num (last rs)) (windowSize (length rs)) d i"
    by auto
  show ?thesis
    using el lr_prediction_props(5,6) [OF sd l i assms(3), of tza t sl ic "windowSize (length rs)"]
    unfolding p by blast
qed

section \<open>Finite values in the recurrent forecaster\<close>

lemma finite_add: "finite_num x \<Longrightarrow> finite_num y \<Longrightarrow> finite_num (add x y)"
  by (auto simp: finite_num_iff)

lemma finite_mul: "finite_num x \<Longrightarrow> finite_num y \<Longrightarrow> finite_num (mul x y)"
  by (auto simp: finite_num_iff)

lemma finite_sub: "finite_num x \<Longrightarrow> finite_num y \<Longrightarrow> finite_num (sub x y)"
  by (auto simp: finite_num_iff)

lemma finite_Num [simp]: "finite_num (Num a)"
  by (simp add: finite_num_def)

lemma finite_sigmoid: "finite_num x \<Longrightarrow> finite_num (sigmoid x)"
proof -
  assume "finite_num x"
  then obtain a where a: "x = Num a" by (auto simp: finite_num_iff)
  have "0 < 1 + exp (- a)" by (simp add: add_pos_pos)
  then have "1 + exp (- a) \<noteq> 0" by simp
  then show ?thesis unfolding a by (simp add: sigmoid_def)
qed

lemma finite_tanh: "finite_num x \<Longrightarrow> finite_num (Math_tanh x)"
  by (auto simp: finite_num_iff)

lemma finite_row_sum:
  "\<forall>w\<in>set ws. finite_num w \<Longrightarrow> \<forall>x\<in>set xs. finite_num x \<Longrightarrow> finite_num acc \<Longrightarrow>
   length xs \<le> length ws \<Longrightarrow> finite_num (row_sum ws xs acc)"
  by (induction ws xs acc rule: row_sum.induct) (simp_all add: finite_add finite_mul)

lemma matMul_finite:
  assumes "finite_matrix rows cols w" and "\<forall>x\<in>set xs. finite_num x" and "length xs \<le> cols"
  shows "length (matMul w xs) = rows \<and> (\<forall>y\<in>set (matMul w xs). finite_num y)"
  using assms by (auto simp: matMul_def finite_matrix_def intro!: finite_row_sum)

lemma finite_elem_at: "finite_list xs \<Longrightarrow> i < length xs \<Longrightarrow> finite_num (elem_at xs i)"
  by (simp add: finite_list_def elem_at_def)

lemma finite_list_map: "(\<And>x. x \<in> set xs \<Longrightarrow> finite_num (f x)) \<Longrightarrow> finite_list (map f xs)"
  by (simp add: finite_list_def)

lemma gate_finite:
  assumes "finite_matrix hs (Suc hs) w" and "finite_num x" and "finite_list h" and "length h = hs"
    and "\<And>y. finite_num y \<Longrightarrow> finite_num (g y)"
  shows "length (map g (matMul w (x # h))) = hs \<and> finite_list (map g (matMul w (x # h)))"
proof -
  have "\<forall>y\<in>set (x # h). finite_num y" using assms(2,3) by (simp add: finite_list_def)
  moreover have "length (x # h) \<le> Suc hs" using assms(4) by simp
  ultimately have "length (matMul w (x # h)) = hs \<and> (\<forall>y\<in>set (matMul w (x # h)). finite_num y)"
    using matMul_finite [OF assms(1)] by blast
  then show ?thesis using assms(5) by (simp add: finite_list_def)
qed

lemma in_zip_upt: "z \<in> set (zip xs [0..<length xs]) \<Longrightarrow> fst z \<in> set xs \<and> snd z < length xs"
  by (auto simp: set_zip)

lemma forward_finite:
  assumes cl: "finite_cell hs cl" and x: "finite_num x"
    and h: "finite_list h" "length h = hs" and c: "finite_list c" "length c = hs"
  shows "length (fst (forward cl x h c)) = hs \<and> finite_list (fst (forward cl x h c)) \<and>
         length (snd (forward cl x h c)) = hs \<and> finite_list (snd (forward cl x h c))"
proof -
  let ?ft = "map sigmoid (matMul (Wf cl) (x # h))"
  let ?it = "map sigmoid (matMul (Wi cl) (x # h))"
  let ?ct = "map Math_tanh (matMul (Wc cl) (x # h))"
  let ?ot = "map sigmoid (matMul (Wo cl) (x # h))"
  have ft: "length ?ft = hs" "finite_list ?ft"
    using gate_finite [OF _ x h, of "Wf cl" sigmoid] cl by (simp_all add: finite_cell_def finite_sigmoid)
  have it: "length ?it = hs" "finite_list ?it"
    using gate_finite [OF _ x h, of "Wi cl" sigmoid] cl by (simp_all add: finite_cell_def finite_sigmoid)
  have ct: "length ?ct = hs" "finite_list ?ct"
    using gate_finite [OF _ x h, of "Wc cl" Math_tanh] cl by (simp_all add: finite_cell_def finite_tanh)
  have ot: "length ?ot = hs" "finite_list ?ot"
    using gate_finite [OF _ x h, of "Wo cl" sigmoid] cl by (simp_all add: finite_cell_def finite_sigmoid)
  let ?newC = "map (\<lambda>(cVal, i). add (mul (elem_at ?ft i) cVal) (mul (elem_at ?it i) (elem_at ?ct i)))
                   (zip c [0..<length c])"
  let ?newH = "map (\<lambda>(cVal, i). mul (elem_at ?ot i) (Math_tanh cVal)) (zip ?newC [0..<length ?newC])"
  have lc: "length ?newC = hs" using c(2) by simp
  have fc: "finite_list ?newC"
  proof (rule finite_list_map)
    fix z assume "z \<in> set (zip c [0..<length c])"
    then have z: "fst z \<in> set c" "snd z < length c"
      using in_zip_upt [of z c] by blast+
    have "finite_num (fst z)" using z(1) c(1) by (simp add: finite_list_def)
    moreover have "finite_num (elem_at ?ft (snd z))" "finite_num (elem_at ?it (snd z))"
      "finite_num (elem_at ?ct (snd z))"
      using z(2) c(2) ft it ct by (simp_all add: finite_elem_at)
    ultimately show "finite_num (case z of (cVal, i) \<Rightarrow>
        add (mul (elem_at ?ft i) cVal) (mul (elem_at ?it i) (elem_at ?ct i)))"
      by (simp add: case_prod_beta finite_add finite_mul)
  qed
  have lh: "length ?newH = hs" using lc by simp
  have fh: "finite_list ?newH"
  proof (rule finite_list_map)
    fix z assume "z \<in> set (zip ?newC [0..<length ?newC])"
    then have z: "fst z \<in> set ?newC" "snd z < length ?newC"
      using in_zip_upt [of z ?newC] by blast+
    have "finite_num (fst z)" using z(1) fc unfolding finite_list_def by blast
    moreover have "finite_num (elem_at ?ot (snd z))"
      using z(2) lc ot by (simp add: finite_elem_at)
    ultimately show "finite_num (case z of (cVal, i) \<Rightarrow> mul (elem_at ?ot i) (Math_tanh cVal))"
      by (simp add: case_prod_beta finite_mul finite_tanh)
  qed
  have "forward cl x h c = (?newH, ?newC)" by (simp add: forward_def Let_def)
  then show ?thesis using lc fc lh fh by simp
qed

lemma readout_fold_finite:
  "finite_num acc \<Longrightarrow> finite_list ow \<Longrightarrow>
   (\<forall>z\<in>set zs. finite_num (fst z) \<and> snd z < length ow) \<Longrightarrow>
   finite_num (foldl (\<lambda>acc (val, idx). add acc (mul val (elem_at ow idx))) acc zs)"
  by (induction zs arbitrary: acc)
     (simp_all add: case_prod_beta finite_add finite_mul finite_elem_at)

lemma readout_finite:
  assumes "finite_list h" and "finite_list ow" and "length h \<le> length ow"
  shows "finite_num (readout h ow)"
proof -
  have "\<forall>z\<in>set (zip h [0..<length h]). finite_num (fst z) \<and> snd z < length ow"
    using in_zip_upt [of _ h] assms(1,3) unfolding finite_list_def by fastforce
  then show ?thesis
    unfolding readout_def using assms(2) by (intro readout_fold_finite) simp_all
qed

lemma finite_list_nth: "finite_list xs \<longleftrightarrow> (\<forall>j<length xs. finite_num (xs ! j))"
  by (simp add: finite_list_def all_set_conv_all_nth)

lemma update_outputWeights_finite:
  assumes "finite_num lr" and "finite_num err" and "finite_list h" and "length h = hs"
    and "finite_list ow" and "length ow = hs"
  shows "length (update_outputWeights lr err h hs ow) = hs \<and>
         finite_list (update_outputWeights lr err h hs ow)"
proof -
  let ?ws = "update_outputWeights lr err h hs ow"
  have len: "length ?ws = hs"
    using update_outputWeights_inv [of lr err h hs ow] assms(6) by simp
  have "finite_num (?ws ! j)" if j: "j < hs" for j
  proof -
    have "?ws ! j = add (ow ! j) (mul (mul lr err) (elem_at h j))"
      using update_outputWeights_inv [of lr err h hs ow] j assms(6) by simp
    moreover have "finite_num (ow ! j)" using assms(5,6) j by (simp add: finite_list_nth)
    moreover have "finite_num (elem_at h j)" using assms(3,4) j by (simp add: finite_elem_at)
    ultimately show ?thesis using assms(1,2) by (simp add: finite_add finite_mul)
  qed
  then show ?thesis using len by (simp add: finite_list_nth)
qed

lemma train_epoch_finite:
  "finite_lstm lstm \<Longrightarrow> finite_list data \<Longrightarrow>
   finite_list h \<Longrightarrow> length h = hiddenSize lstm \<Longrightarrow>
   finite_list c \<Longrightarrow> length c = hiddenSize lstm \<Longrightarrow>
   finite_lstm (train_epoch lstm h c data)"
proof (induction lstm h c data rule: train_epoch.induct)
  case (1 lstm h c x y rest)
  let ?hs = "hiddenSize lstm"
  obtain h' c' where f: "forward (cell lstm) x h c = (h', c')" by (cases "forward (cell lstm) x h c")
  have x: "finite_num x" and y: "finite_num y" and rest: "finite_list (y # rest)"
    using "1.prems"(2) by (simp_all add: finite_list_def)
  have cl: "finite_cell ?hs (cell lstm)" and ow: "length (outputWeights lstm) = ?hs"
    "finite_list (outputWeights lstm)"
    using "1.prems"(1) by (simp_all add: finite_lstm_def)
  have hc: "length h' = ?hs" "finite_list h'" "length c' = ?hs" "finite_list c'"
    using forward_finite [OF cl x "1.prems"(3,4,5,6)] f by simp_all
  let ?err = "sub y (readout h' (outputWeights lstm))"
  have err: "finite_num ?err"
    using y readout_finite [OF hc(2) ow(2)] hc(1) ow(1) by (simp add: finite_sub)
  let ?ws = "update_outputWeights (Num 0.001) ?err h' ?hs (outputWeights lstm)"
  have ws: "length ?ws = ?hs" "finite_list ?ws"
    using update_outputWeights_finite [OF _ err hc(2,1) ow(2,1), of "Num 0.001"] by simp_all
  let ?lstm' = "lstm \<lparr> outputWeights := ?ws \<rparr>"
  have l': "finite_lstm ?lstm'"
    using cl ws by (simp add: finite_lstm_def)
  have step: "train_epoch lstm h c (x # y # rest) = train_epoch ?lstm' h' c' (y # rest)"
    by (simp add: f Let_def)
  have "finite_lstm (train_epoch ?lstm' h' c' (y # rest))"
    using "1.IH" [OF f [symmetric] refl refl refl refl l' rest] hc by simp
  then show ?case unfolding step .
qed simp_all

lemma finite_replicate_zero: "finite_list (replicate n (Num 0))"
  by (simp add: finite_list_def)

lemma train_finite:
  "finite_lstm lstm \<Longrightarrow> finite_list data \<Longrightarrow> finite_lstm (train lstm data epochs)"
proof (induction epochs arbitrary: lstm)
  case 0
  then show ?case by simp
next
  case (Suc epochs)
  let ?l1 = "train_epoch lstm (replicate (hiddenSize lstm) (Num 0))
               (replicate (hiddenSize lstm) (Num 0)) data"
  have "finite_lstm ?l1"
    using Suc.prems by (intro train_epoch_finite) (simp_all add: finite_replicate_zero)
  then have "finite_lstm (train ?l1 data epochs)"
    using Suc.prems(2) by (rule Suc.IH)
  then show ?case by simp
qed

lemma init_row_finite:
  "finite_num scale \<Longrightarrow>
   length (fst (init_row rnd scale cols k)) = cols \<and> finite_list (fst (init_row rnd scale cols k))"
proof (induction cols arbitrary: k)
  case 0
  show ?case by (simp add: finite_list_def)
next
  case (Suc cols)
  obtain a where a: "scale = Num a" using Suc.prems by (auto simp: finite_num_iff)
  from Suc.IH [OF Suc.prems, of "k + 1"] show ?case
    unfolding a by (simp add: split_def Let_def finite_list_def)
qed

lemma init_rows_finite:
  "finite_num scale \<Longrightarrow> finite_matrix rows cols (fst (init_rows rnd scale rows cols k))"
proof (induction rows arbitrary: k)
  case 0
  show ?case by (simp add: finite_matrix_def)
next
  case (Suc rows)
  from Suc.IH [OF Suc.prems] init_row_finite [OF Suc.prems, of rnd cols k] show ?case
    by (simp add: split_def Let_def finite_matrix_def finite_list_def)
qed

lemma initWeights_finite:
  "0 < cols \<Longrightarrow> finite_matrix rows cols (fst (initWeights rnd rows cols k))"
proof -
  assume "0 < cols"
  then have "real (rows + cols) \<noteq> 0" "\<not> 2 / real (rows + cols) < 0" by simp_all
  then have "finite_num (Math_sqrt (divide_num (Num 2) (Num (real (rows + cols)))))" by simp
  then show ?thesis
    unfolding initWeights_def Let_def by (rule init_rows_finite)
qed

lemma init_outputWeights_finite:
  "length (fst (init_outputWeights rnd m k)) = m \<and> finite_list (fst (init_outputWeights rnd m k))"
proof (induction m arbitrary: k)
  case 0
  show ?case by (simp add: finite_list_def)
next
  case (Suc m)
  from Suc.IH [of "k + 1"] show ?case
    by (simp add: split_def Let_def finite_list_def)
qed

lemma new_SimpleLSTM_finite: "finite_lstm (fst (new_SimpleLSTM rnd hs k))"
  by (simp add: new_SimpleLSTM_def new_SimpleLSTMCell_def split_def Let_def finite_lstm_def
        finite_cell_def initWeights_finite init_outputWeights_finite)

lemma predict_loop_finite:
  "finite_lstm lstm \<Longrightarrow> finite_num lastInput \<Longrightarrow>
   finite_list h \<Longrightarrow> length h = hiddenSize lstm \<Longrightarrow>
   finite_list c \<Longrightarrow> length c = hiddenSize lstm \<Longrightarrow> finite_list acc \<Longrightarrow>
   length (predict_loop lstm m lastInput h c acc) = length acc + m \<and>
   finite_list (predict_loop lstm m lastInput h c acc)"
proof (induction m arbitrary: lastInput h c acc)
  case 0
  then show ?case by simp
next
  case (Suc m)
  let ?hs = "hiddenSize lstm"
  obtain h' c' where f: "forward (cell lstm) lastInput h c = (h', c')"
    by (cases "forward (cell lstm) lastInput h c")
  have cl: "finite_cell ?hs (cell lstm)" and ow: "length (outputWeights lstm) = ?hs"
    "finite_list (outputWeights lstm)"
    using Suc.prems(1) by (simp_all add: finite_lstm_def)
  have hc: "length h' = ?hs" "finite_list h'" "length c' = ?hs" "finite_list c'"
    using forward_finite [OF cl Suc.prems(2,3,4,5,6)] f by simp_all
  let ?p = "readout h' (outputWeights lstm)"
  have p: "finite_num ?p"
    using readout_finite [OF hc(2) ow(2)] hc(1) ow(1) by simp
  have acc: "finite_list (acc @ [?p])"
    using Suc.prems(7) p by (simp add: finite_list_def)
  have step: "predict_loop lstm (Suc m) lastInput h c acc = predict_loop lstm m ?p h' c' (acc @ [?p])"
    by (simp add: f Let_def)
  show ?case
    unfolding step using Suc.IH [OF Suc.prems(1) p hc(2,1,4,3) acc] by simp
qed

lemma warmup_finite:
  "finite_cell hs cl \<Longrightarrow> finite_list vals \<Longrightarrow>
   finite_list h \<Longrightarrow> length h = hs \<Longrightarrow> finite_list c \<Longrightarrow> length c = hs \<Longrightarrow>
   length (fst (foldl (\<lambda>(h, c) val. forward cl val h c) (h, c) vals)) = hs \<and>
   finite_list (fst (foldl (\<lambda>(h, c) val. forward cl val h c) (h, c) vals)) \<and>
   length (snd (foldl (\<lambda>(h, c) val. forward cl val h c) (h, c) vals)) = hs \<and>
   finite_list (snd (foldl (\<lambda>(h, c) val. forward cl val h c) (h, c) vals))"
proof (induction vals arbitrary: h c)
  case Nil
  then show ?case by simp
next
  case (Cons v vals)
  obtain h' c' where f: "forward cl v h c = (h', c')" by (cases "forward cl v h c")
  have v: "finite_num v" and vals: "finite_list vals"
    using Cons.prems(2) by (simp_all add: finite_list_def)
  have hc: "length h' = hs" "finite_list h'" "length c' = hs" "finite_list c'"
    using forward_finite [OF Cons.prems(1) v Cons.prems(3,4,5,6)] f by simp_all
  show ?case
    using Cons.IH [OF Cons.prems(1) vals hc(2,1,4,3)] by (simp add: f)
qed

lemma predict_finite:
  assumes "finite_lstm lstm" and "finite_list lastValues" and "lastValues \<noteq> []"
  shows "length (predict lstm lastValues steps) = iterations steps \<and>
         finite_list (predict lstm lastValues steps)"
proof -
  let ?hs = "hiddenSize lstm"
  let ?z = "replicate ?hs (Num 0)"
  let ?st = "foldl (\<lambda>(h, c) val. forward (cell lstm) val h c) (?z, ?z) lastValues"
  have cl: "finite_cell ?hs (cell lstm)" using assms(1) by (simp add: finite_lstm_def)
  have st: "length (fst ?st) = ?hs" "finite_list (fst ?st)" "length (snd ?st) = ?hs" "finite_list (snd ?st)"
    using warmup_finite [OF cl assms(2) finite_replicate_zero _ finite_replicate_zero, of ?hs ?hs]
    by simp_all
  have li: "finite_num (elem_at lastValues (length lastValues - 1))"
    using assms(2,3) by (intro finite_elem_at) simp_all
  have "predict lstm lastValues steps =
          predict_loop lstm (iterations steps) (elem_at lastValues (length lastValues - 1))
            (fst ?st) (snd ?st) []"
    by (simp add: predict_def Let_def split_def)
  then show ?thesis
    using predict_loop_finite [OF assms(1) li st(2,1,4,3), of "[]" "iterations steps"]
    by (simp add: finite_list_def)
qed

lemma normalizeData_nonconstant:
  assumes "\<forall>p\<in>set series. finite_num p"
    and "\<exists>a\<in>set series. \<exists>b\<in>set series. a \<noteq> b"
  shows "\<exists>m M. nmin (normalizeData series) = Num m \<and> nmax (normalizeData series) = Num M \<and>
           finite_list (normalized (normalizeData series)) \<and>
           length (normalized (normalizeData series)) = length series"
proof -
  obtain xs where xs: "series = map Num xs"
    using assms(1) finite_list_conv [of series] by blast
  with assms(2) obtain r rs where rs: "xs = r # rs" by (cases xs) auto
  let ?m = "foldl min r rs" and ?M = "foldl max r rs"
  have lo: "\<forall>x\<in>set xs. ?m \<le> x" using foldl_min_le [of r rs] rs by simp
  have hi: "\<forall>x\<in>set xs. x \<le> ?M" using foldl_max_ge [of r rs] rs by simp
  obtain a b where ab: "a \<in> set xs" "b \<in> set xs" "a \<noteq> b"
    using assms(2) xs by auto
  have "?M \<noteq> ?m"
  proof
    assume "?M = ?m"
    then have "a = ?m" "b = ?m" using lo hi ab(1,2) by (force intro: antisym)+
    with ab(3) show False by simp
  qed
  then have ne: "?M - ?m \<noteq> 0" by simp
  show ?thesis
    unfolding xs rs normalizeData_finite using ne by (simp add: finite_list_def)
qed

lemma denormalize_finite:
  "finite_num v \<Longrightarrow> finite_num (denormalize v (Num m) (Num M))"
  by (auto simp: finite_num_iff denormalize_def)

text \<open>
  The recurrent part of claim C6 away from the constant series: on a series of at least
  60 finite prices \<open>\<ge> 0\<close> that are not all equal, and for every random
  initialisation, every predicted price of the recurrent forecaster is within 20% of
  the last price.
\<close>

lemma lstm_prediction_price:
  assumes "elem_at actual i = Num r" and "0 \<le> l"
  shows "\<exists>c. predicted_price (lstm_prediction tza t sd (Num l) actual d i) = Num c \<and>
             l - 0.20 * l \<le> c \<and> c \<le> l + 0.20 * l"
proof -
  define s where "s = r * (0.7 + 0.3 * exp (- real i / 10)) + l * (1 - (0.7 + 0.3 * exp (- real i / 10)))"
  let ?c = "max 0 (max (l - l * 0.20) (min (l + l * 0.20) s))"
  have "predicted_price (lstm_prediction tza t sd (Num l) actual d i) = Num ?c"
    using assms(1)
    by (simp add: lstm_prediction_def Let_def lstm_smoothingFactor_def clamp_around_def s_def)
  moreover have "l - 0.20 * l \<le> ?c" "?c \<le> l + 0.20 * l"
    using assms(2) by (simp_all add: max_def min_def)
  ultimately show ?thesis by blast
qed

lemma predictLSTM_within_20_percent:
  assumes "60 \<le> length historicalPrices"
    and "\<forall>p\<in>set historicalPrices. finite_num p \<and> le_num (Num 0) p"
    and "\<exists>a\<in>set historicalPrices. \<exists>b\<in>set historicalPrices. a \<noteq> b"
    and "predictLSTM tza t rnd historicalPrices (Some d) = Inr ps"
    and "p \<in> set ps"
  shows "\<exists>l. elem_at historicalPrices (length historicalPrices - 1) = Num l \<and>
             le_num (Num (l - 0.20 * l)) (predicted_price p) \<and>
             le_num (predicted_price p) (Num (l + 0.20 * l))"
proof -
  let ?n = "length historicalPrices"
  let ?nd = "normalizeData historicalPrices"
  have fin: "\<forall>p\<in>set historicalPrices. finite_num p" using assms(2) by blast
  obtain m M where nd: "nmin ?nd = Num m" "nmax ?nd = Num M" "finite_list (normalized ?nd)"
    "length (normalized ?nd) = ?n"
    using normalizeData_nonconstant [OF fin assms(3)] by blast
  let ?lstm = "train (fst (new_SimpleLSTM rnd 50 0)) (normalized ?nd) 50"
  have lstm: "finite_lstm ?lstm"
    using nd(3) by (intro train_finite new_SimpleLSTM_finite)
  let ?lastValues = "slice_last (min 60 ?n) (normalized ?nd)"
  have lv: "finite_list ?lastValues" "?lastValues \<noteq> []"
    using nd(3,4) assms(1) by (auto simp: slice_last_def finite_list_def dest: in_set_dropD)
  let ?np = "predict ?lstm ?lastValues (Some d)"
  have np: "length ?np = nat d" "finite_list ?np"
    using predict_finite [OF lstm lv, of "Some d"] by (simp_all add: iterations_def)
  let ?actual = "map (\<lambda>val. denormalize val (nmin ?nd) (nmax ?nd)) ?np"
  have actual: "length ?actual = nat d" "finite_list ?actual"
    using np unfolding nd(1,2) by (simp_all add: finite_list_def denormalize_finite)
  have ne: "historicalPrices \<noteq> []" using assms(1) by auto
  then have "last historicalPrices \<in> set historicalPrices" by simp
  then obtain l where l: "last historicalPrices = Num l" "0 \<le> l"
    using assms(2) by (metis finite_num_iff le_num.simps(1))
  have el: "elem_at historicalPrices (?n - 1) = Num l"
    using ne l(1) by (simp add: elem_at_def last_conv_nth)
  let ?recent = "slice_last 30 historicalPrices"
  let ?sd = "stdDev_of (foldl add (Num 0) ?recent) ?recent"
  have "ps = map (lstm_prediction tza t ?sd (Num l) ?actual d) [0..<nat d]"
    using assms(1,4) el by (simp add: predictLSTM_def Let_def)
  with assms(5) obtain i where i: "i < nat d" and p: "p = lstm_prediction tza t ?sd (Num l) ?actual d i"
    by auto
  obtain r where r: "elem_at ?actual i = Num r"
    using finite_elem_at [OF actual(2), of i] i actual(1) by (auto simp: finite_num_iff)
  show ?thesis
    using el lstm_prediction_price [OF r l(2), of tza t ?sd d] unfolding p by auto
qed

end
